theory Spec2Isabelle
  imports Main
begin

section \<open>Python values and exceptions\<close>

text \<open>
  The scripts of the repository are straight-line Python: they read JSON-Lines files,
  talk to a batch facility, and write JSON-Lines files. An uncaught exception or a call
  of \<open>sys.exit\<close> with a message ends the process with a non-zero exit status; both are
  values of \<open>py_error\<close>, and a step that can end the process returns \<open>py_error + 'a\<close>
  (what the step had already written to a file before it died is not part of the result).
  Messages are kept without the pictograph and the space that lead them in the source, the
  text being ASCII.
\<close>

datatype py_error =
    RuntimeError string
  | SystemExit string
  | ValueError string
  | KeyError string
  | TypeError
  | JSONDecodeError
  | ZeroDivisionError

text \<open>
  A parsed JSON document, as \<open>json.loads\<close> returns it. A Python dict keeps its keys in
  insertion order and holds each key once: it is an association list, \<open>dict_set d k v\<close>
  is the assignment \<open>d[k] = v\<close> (an existing key keeps its place and takes the new
  value, a new key goes last), \<open>map_of d k\<close> is the lookup, and \<open>dict_update d e\<close> is
  the dict display \<open>{ **d, **e }\<close>, which assigns the items of \<open>e\<close> in order.
\<close>

datatype json =
    JNull
  | JBool bool
  | JInt int
  | JStr string
  | JArr "json list"
  | JObj "(string \<times> json) list"

type_synonym 'v pydict = "(string \<times> 'v) list"

fun dict_set :: "'v pydict \<Rightarrow> string \<Rightarrow> 'v \<Rightarrow> 'v pydict" where
  "dict_set [] k v = [(k, v)]"
| "dict_set ((k', v') # d) k v = (if k' = k then (k', v) # d else (k', v') # dict_set d k v)"

definition dict_update :: "'v pydict \<Rightarrow> 'v pydict \<Rightarrow> 'v pydict" where
  "dict_update d e = fold (\<lambda>(k, v) acc. dict_set acc k v) e d"

section \<open>Strings\<close>

text \<open>
  Text is a list of characters with code points below 256. \<open>py_isspace\<close> is
  \<open>str.isspace\<close> on one character, which is also what \<open>\s\<close> matches in a pattern
  compiled from a \<open>str\<close>.
\<close>

definition py_isspace :: "char \<Rightarrow> bool" where
  "py_isspace c = (c \<in> set [CHR 0x09, CHR 0x0A, CHR 0x0B, CHR 0x0C, CHR 0x0D,
      CHR 0x1C, CHR 0x1D, CHR 0x1E, CHR 0x1F, CHR 0x20, CHR 0x85, CHR 0xA0])"

definition ascii_letter :: "char \<Rightarrow> bool" where
  "ascii_letter c =
     (let n = (of_char c :: nat) in (65 \<le> n \<and> n \<le> 90) \<or> (97 \<le> n \<and> n \<le> 122))"

definition strip :: "string \<Rightarrow> string" where
  "strip s = rev (dropWhile py_isspace (rev (dropWhile py_isspace s)))"

definition startswith :: "string \<Rightarrow> string \<Rightarrow> bool" where
  "startswith s p = (take (length p) s = p)"

definition dq :: char where
  "dq = CHR 0x22"

text \<open>Decimal digits of a natural number (\<open>str(n)\<close>, the \<open>{n}\<close> of an f-string).\<close>

definition digit_char :: "nat \<Rightarrow> char" where
  "digit_char d = ''0123456789'' ! d"

fun show_nat :: "nat \<Rightarrow> string" where
  "show_nat n =
     (if n < 10 then [digit_char n] else show_nat (n div 10) @ [digit_char (n mod 10)])"

declare show_nat.simps [simp del]

text \<open>\<open>f"{i:04d}"\<close> for \<open>i \<ge> 0\<close>: the digits, padded with zeros on the left to width 4.\<close>

definition fmt_04d :: "nat \<Rightarrow> string" where
  "fmt_04d i = replicate (4 - length (show_nat i)) (CHR ''0'') @ show_nat i"

definition digit_val :: "char \<Rightarrow> nat" where
  "digit_val c = of_char c - 48"

definition dec_value :: "string \<Rightarrow> nat" where
  "dec_value s = foldl (\<lambda>a c. 10 * a + digit_val c) 0 s"

text \<open>
  \<open>int(s)\<close> on the strings the scripts give it: the group of \<open>age:\s*(\d+)\<close>, a
  non-empty run of digits. Any other string is refused here with the \<open>ValueError\<close> of
  \<open>int\<close>.
\<close>

definition py_int :: "string \<Rightarrow> py_error + int" where
  "py_int s =
     (if s \<noteq> [] \<and> list_all (\<lambda>c. c \<in> set ''0123456789'') s
      then Inr (int (dec_value s))
      else Inl (ValueError (''invalid literal for int() with base 10: '' @ s)))"

section \<open>generate_complaints.py: clean_json\<close>

text \<open>
  \<^verbatim>\<open>
  def clean_json(raw: str) -> str:
      """Remove fences or text before/after a JSON array."""
      raw = raw.strip()
      if raw.startswith(FENCE):
          raw = re.sub(r"^FENCE[a-zA-Z]*\s*", "", raw)   # opening fence
          raw = re.sub(r"\s*FENCE$", "", raw)            # closing fence
      # keep only the first [...] you find
      m = re.search(r"\[.*\]", raw, re.S)
      return m.group(0) if m else ""
  \<close>
  where FENCE stands for three grave accents (code point 0x60).

  \<^item> The first substitution can only match at position 0 (\<open>^\<close> without MULTILINE), and
    does when the text starts with the fence: the fence, the letters after it and the
    white space after them go.
  \<^item> The second substitution removes the leftmost match of white space, a fence and
    \<open>$\<close>; \<open>$\<close> matches at the end of the text and before a line feed that ends the
    text. \<open>match_closing_fence s\<close> matches the pattern at the start of \<open>s\<close> and returns
    what follows the match (nothing, or that line feed).
  \<^item> The search returns the text from the first opening bracket to the last closing
    bracket after it (\<open>.*\<close> is greedy and, with \<open>re.S\<close>, matches every character).
\<close>

definition fence :: string where
  "fence = [CHR 0x60, CHR 0x60, CHR 0x60]"

definition sub_opening_fence :: "string \<Rightarrow> string" where
  "sub_opening_fence raw =
     (if startswith raw fence
      then dropWhile py_isspace (dropWhile ascii_letter (drop 3 raw))
      else raw)"

definition match_closing_fence :: "string \<Rightarrow> string option" where
  "match_closing_fence s =
     (let r = dropWhile py_isspace s
      in if startswith r fence \<and> (drop 3 r = [] \<or> drop 3 r = [CHR 0x0A])
         then Some (drop 3 r) else None)"

fun sub_closing_fence :: "string \<Rightarrow> string" where
  "sub_closing_fence [] = []"
| "sub_closing_fence (c # cs) =
     (case match_closing_fence (c # cs) of
        Some rest \<Rightarrow> rest
      | None \<Rightarrow> c # sub_closing_fence cs)"

definition search_array :: "string \<Rightarrow> string option" where
  "search_array raw =
     (let r = dropWhile (\<lambda>c. c \<noteq> CHR ''['') raw
      in if CHR '']'' \<in> set r
         then Some (rev (dropWhile (\<lambda>c. c \<noteq> CHR '']'') (rev r)))
         else None)"

definition clean_json :: "string \<Rightarrow> string" where
  "clean_json raw0 =
     (let raw = strip raw0;
          raw = (if startswith raw fence
                 then sub_closing_fence (sub_opening_fence raw) else raw)
      in case search_array raw of Some m \<Rightarrow> m | None \<Rightarrow> [])"

text \<open>The two raw contents of the extraction examples.\<close>

definition fenced_example :: string where
  "fenced_example = fence @ ''json'' @ [CHR 0x0A] @ ''[1,2,3]'' @ [CHR 0x0A] @ fence"

definition prose_example :: string where
  "prose_example = ''Sure! {'' @ [dq] @ ''a'' @ [dq] @ '':1} Hope that helps!''"

definition object_text :: string where
  "object_text = ''{'' @ [dq] @ ''a'' @ [dq] @ '':1}''"

section \<open>generate_soap_sections.py: composite custom ids\<close>

text \<open>
  \<open>s.split(sep, maxsplit)\<close> for a separator of one character: cut at the first
  \<open>maxsplit\<close> occurrences of the separator, from the left; the last piece keeps the
  separators left in it.
\<close>

fun split_max :: "char \<Rightarrow> nat \<Rightarrow> string \<Rightarrow> string list" where
  "split_max sep 0 s = [s]"
| "split_max sep (Suc n) s =
     (if sep \<in> set s
      then takeWhile (\<lambda>c. c \<noteq> sep) s # split_max sep n (tl (dropWhile (\<lambda>c. c \<noteq> sep) s))
      else [s])"

text \<open>
  The five paraphrase formats (slug, instruction; the instruction with \<open><=\<close> written
  in ASCII), and the four keys the SOAP prompt of \<open>generate_soap_notes.py\<close> asks the
  note to have, which are the section labels the augmentation stage iterates over.
\<close>

definition FORMAT_VARIANTS :: "(string \<times> string) list" where
  "FORMAT_VARIANTS =
     [(''simple'', ''Rephrase in plain prose; keep structure similar.''),
      (''bullets'', ''Rewrite as bullet points (-). Each line <= 20 words.''),
      (''narrative'', ''Expand into a brief narrative paragraph (3-4 sentences).''),
      (''brev_bp'', ''Bullet list, line <= 70 characters; be concise.''),
      (''detailed'', ''Add clinical nuance and detail while preserving facts.'')]"

definition SOAP_LABELS :: "string list" where
  "SOAP_LABELS = [''subjective'', ''objective'', ''assessment'', ''plan'']"

text \<open>\<^verbatim>\<open>"custom_id": f"{cid}_{label}_{slug}"\<close>\<close>

definition encode_custom_id :: "string \<Rightarrow> string \<Rightarrow> string \<Rightarrow> string" where
  "encode_custom_id cid label slug = cid @ ''_'' @ label @ ''_'' @ slug"

text \<open>
  \<^verbatim>\<open>cid, section, slug = j["custom_id"].split("_", 2)\<close>
  The unpacking raises \<open>ValueError\<close> unless the split has exactly three pieces.
\<close>

definition decode_custom_id :: "string \<Rightarrow> py_error + (string \<times> string \<times> string)" where
  "decode_custom_id s =
     (case split_max (CHR ''_'') 2 s of
        [cid, section, slug] \<Rightarrow> Inr (cid, section, slug)
      | _ \<Rightarrow> Inl (ValueError ''not enough values to unpack''))"

text \<open>
  The ids of the request file, in the order of the three nested loops over the notes,
  their sections and the formats.
\<close>

definition augment_ids :: "('v pydict) pydict \<Rightarrow> string list" where
  "augment_ids sections =
     concat (map (\<lambda>(cid, soap).
       concat (map (\<lambda>(label, body).
         map (\<lambda>(slug, extra). encode_custom_id cid label slug) FORMAT_VARIANTS) soap)) sections)"

section \<open>The poll loops\<close>

text \<open>
  \<^verbatim>\<open>
  while True:
      batch_job = client.batches.retrieve(batch_job.id)
      status = batch_job.status
      if status in {"failed", "expired"}:
          raise RuntimeError(f"Batch {status}: {batch_job}")
      if status == "completed":
          break
      time.sleep(CONFIG["BATCH_POLL_SEC"])
  \<close>
  The facility is a script: the list of statuses that successive calls of
  \<open>client.batches.retrieve\<close> answer with. The loop returns how it left (normally, or
  with the error), the number of polls it made, the number of sleeps, and the part of the
  script it never asked for. When the script ends before a terminal status the loop has
  not left: the result is \<open>None\<close>. The dump of the job object in the message of the
  \<open>RuntimeError\<close> is not modelled.
\<close>

type_synonym poll_result = "(py_error + unit) \<times> nat \<times> nat \<times> string list"

fun poll_tx :: "string list \<Rightarrow> nat \<Rightarrow> nat \<Rightarrow> poll_result option" where
  "poll_tx [] polls sleeps = None"
| "poll_tx (status # script) polls sleeps =
     (if status \<in> {''failed'', ''expired''}
      then Some (Inl (RuntimeError (''Batch '' @ status)), Suc polls, sleeps, script)
      else if status = ''completed''
      then Some (Inr (), Suc polls, sleeps, script)
      else poll_tx script (Suc polls) (Suc sleeps))"

text \<open>
  \<^verbatim>\<open>
  while True:
      batch = client.batches.retrieve(batch.id)
      if batch.status in {"failed","expired"}:
          sys.exit(f"batch {batch.status}")
      if batch.status == "completed":
          break
      print(...); time.sleep(30)
  \<close>
  The loop of \<open>generate_soap_notes.py\<close> (and of \<open>generate_soap_sections.py\<close>).
\<close>

fun poll_soap :: "string list \<Rightarrow> nat \<Rightarrow> nat \<Rightarrow> poll_result option" where
  "poll_soap [] polls sleeps = None"
| "poll_soap (status # script) polls sleeps =
     (if status \<in> {''failed'', ''expired''}
      then Some (Inl (SystemExit (''batch '' @ status)), Suc polls, sleeps, script)
      else if status = ''completed''
      then Some (Inr (), Suc polls, sleeps, script)
      else poll_soap script (Suc polls) (Suc sleeps))"

text \<open>A status on which the loops sleep and poll again.\<close>

definition waiting :: "string \<Rightarrow> bool" where
  "waiting status = (status \<noteq> ''failed'' \<and> status \<noteq> ''expired'' \<and> status \<noteq> ''completed'')"

section \<open>The files of the SOAP stage\<close>

text \<open>
  A line of \<open>batch_files/batch_input.jsonl\<close>: its \<open>custom_id\<close> and the six groups
  that the fact patterns (\<open>gender:\s*(\w+)\<close>, \<open>age:\s*(\d+)\<close>, ...) match in its
  prompt. Parsing the line and searching the prompt are not modelled: a line is given
  with its groups. A line of \<open>batch_files/batch_output.jsonl\<close>: its \<open>custom_id\<close>, the
  status code of the response and the content of the message. A line of
  \<open>soap_batch/soap_output.jsonl\<close>: its \<open>custom_id\<close>, the status code, and what
  \<open>json.loads\<close> makes of the content (\<open>None\<close> when it raises \<open>JSONDecodeError\<close>).
\<close>

record request =
  rq_custom_id :: string
  rq_gender :: string
  rq_age :: string
  rq_smoker :: string
  rq_drinker :: string
  rq_bp :: string
  rq_cc :: string

record tx_response =
  tx_custom_id :: string
  tx_status_code :: int
  tx_content :: string

record soap_response =
  sp_custom_id :: string
  sp_status_code :: int
  sp_soap :: "json option"

section \<open>generate_soap_notes.py\<close>

text \<open>
  \<^verbatim>\<open>
  def parse_facts(prompt: str) -> Dict[str, str]:
      return {"gender": re_gender.search(prompt).group(1), "age": ..., "smoker": ...,
              "drinker": ..., "bp": ..., "cc": ...}

  facts_map = {}
  for ln in fh:
      j = json.loads(ln); cid = j["custom_id"]
      facts_map[cid] = parse_facts(j["body"]["messages"][0]["content"])
  \<close>
\<close>

definition parse_facts :: "request \<Rightarrow> json pydict" where
  "parse_facts j =
     [(''gender'', JStr (rq_gender j)), (''age'', JStr (rq_age j)),
      (''smoker'', JStr (rq_smoker j)), (''drinker'', JStr (rq_drinker j)),
      (''bp'', JStr (rq_bp j)), (''cc'', JStr (rq_cc j))]"

definition load_facts :: "request list \<Rightarrow> (json pydict) pydict" where
  "load_facts lines =
     fold (\<lambda>j facts_map. dict_set facts_map (rq_custom_id j) (parse_facts j)) lines []"

text \<open>
  \<^verbatim>\<open>grab_tx = re.compile(r'{"transcription"\s*:\s*"(.*)"}', re.S)\<close>, used as
  \<open>grab_tx.match(content)\<close>: the content must start with the opening brace and the
  quoted key; white space, a colon, white space and a quote follow; the group is
  everything up to the last quote that a closing brace follows (\<open>.*\<close> is greedy).
  \<open>grab_tx content\<close> is the group of the match, \<open>None\<close> when there is no match.
\<close>

definition tx_open :: string where
  "tx_open = ''{'' @ [dq] @ ''transcription'' @ [dq]"

fun greedy_until_close :: "string \<Rightarrow> string option" where
  "greedy_until_close [] = None"
| "greedy_until_close (c # cs) =
     (case greedy_until_close cs of
        Some g \<Rightarrow> Some (c # g)
      | None \<Rightarrow> if c = dq \<and> startswith cs ''}'' then Some [] else None)"

definition grab_tx :: "string \<Rightarrow> string option" where
  "grab_tx content =
     (if startswith content tx_open
      then (case dropWhile py_isspace (drop (length tx_open) content) of
              c1 # r1 \<Rightarrow>
                if c1 = CHR '':''
                then (case dropWhile py_isspace r1 of
                        c2 # r2 \<Rightarrow> if c2 = dq then greedy_until_close r2 else None
                      | [] \<Rightarrow> None)
                else None
            | [] \<Rightarrow> None)
      else None)"

text \<open>
  \<^verbatim>\<open>
  for ln in fh:
      j = json.loads(ln)
      if j["response"]["status_code"] == 200:
          content = j["response"]["body"]["choices"][0]["message"]["content"]
          m = grab_tx.match(content)
          if not m:
              raise ValueError(f"Bad JSON in transcription for {j['custom_id']}")
          tx_map[j["custom_id"]] = m.group(1)
  \<close>
\<close>

fun load_tx :: "tx_response list \<Rightarrow> string pydict \<Rightarrow> py_error + string pydict" where
  "load_tx [] tx_map = Inr tx_map"
| "load_tx (j # lines) tx_map =
     (if tx_status_code j = 200
      then (case grab_tx (tx_content j) of
              None \<Rightarrow> Inl (ValueError (''Bad JSON in transcription for '' @ tx_custom_id j))
            | Some tx \<Rightarrow> load_tx lines (dict_set tx_map (tx_custom_id j) tx))
      else load_tx lines tx_map)"

text \<open>\<^verbatim>\<open>missing = set(facts_map) - set(tx_map)\<close>\<close>

definition missing :: "'a pydict \<Rightarrow> 'b pydict \<Rightarrow> string set" where
  "missing facts_map tx_map = set (map fst facts_map) - set (map fst tx_map)"

text \<open>
  A request of \<open>soap_batch/soap_input.jsonl\<close>: its \<open>custom_id\<close>, and the facts and the
  transcription that \<open>template.format(tx=tx_map[cid], **facts)\<close> puts into the prompt
  (the text of the prompt is not modelled).
\<close>

record soap_request =
  sr_custom_id :: string
  sr_facts :: "json pydict"
  sr_tx :: string

fun build_soap_input ::
  "(json pydict) pydict \<Rightarrow> string pydict \<Rightarrow> py_error + soap_request list" where
  "build_soap_input [] tx_map = Inr []"
| "build_soap_input ((cid, facts) # items) tx_map =
     (case map_of tx_map cid of
        None \<Rightarrow> Inl (KeyError cid)
      | Some tx \<Rightarrow>
          (case build_soap_input items tx_map of
             Inl e \<Rightarrow> Inl e
           | Inr reqs \<Rightarrow> Inr (\<lparr>sr_custom_id = cid, sr_facts = facts, sr_tx = tx\<rparr> # reqs)))"

text \<open>
  Steps 3 to 5 of the script, from the two files of the transcript stage to the request
  file that step 6 uploads (\<open>client.files.create\<close>, \<open>client.batches.create\<close>) as it
  is, with no check of its own:
  \<^verbatim>\<open>
  missing = set(facts_map) - set(tx_map)
  if missing:
      sys.exit(f"{len(missing)} transcriptions missing, cannot proceed")
  \<close>
\<close>

definition soap_notes_prepare ::
  "request list \<Rightarrow> tx_response list \<Rightarrow> py_error + soap_request list" where
  "soap_notes_prepare input_lines output_lines =
     (let facts_map = load_facts input_lines
      in case load_tx output_lines [] of
           Inl e \<Rightarrow> Inl e
         | Inr tx_map \<Rightarrow>
             if missing facts_map tx_map \<noteq> {}
             then Inl (SystemExit (show_nat (card (missing facts_map tx_map))
                         @ '' transcriptions missing, cannot proceed''))
             else build_soap_input facts_map tx_map)"

text \<open>
  Step 9, merge and save:
  \<^verbatim>\<open>
  for ln in fh:
      j = json.loads(ln)
      if j["response"]["status_code"] != 200: continue
      cid = j["custom_id"]
      soap = json.loads(j["response"]["body"]["choices"][0]["message"]["content"])
      record = {**facts_map[cid], "transcription": tx_map[cid], **soap, "row_id": cid}
      out.write(json.dumps(record, ensure_ascii=False) + "\n")
  \<close>
  A payload that is not an object cannot be unpacked with \<open>**\<close>: \<open>TypeError\<close>.
\<close>

definition master_record ::
  "json pydict \<Rightarrow> string \<Rightarrow> json pydict \<Rightarrow> string \<Rightarrow> json pydict" where
  "master_record facts tx soap cid =
     dict_set (dict_update (dict_set facts ''transcription'' (JStr tx)) soap)
       ''row_id'' (JStr cid)"

fun merge_master ::
  "(json pydict) pydict \<Rightarrow> string pydict \<Rightarrow> soap_response list
     \<Rightarrow> py_error + json pydict list" where
  "merge_master facts_map tx_map [] = Inr []"
| "merge_master facts_map tx_map (j # lines) =
     (if sp_status_code j \<noteq> 200 then merge_master facts_map tx_map lines
      else case sp_soap j of
        None \<Rightarrow> Inl JSONDecodeError
      | Some soap \<Rightarrow>
          (case map_of facts_map (sp_custom_id j) of
             None \<Rightarrow> Inl (KeyError (sp_custom_id j))
           | Some facts \<Rightarrow>
               (case map_of tx_map (sp_custom_id j) of
                  None \<Rightarrow> Inl (KeyError (sp_custom_id j))
                | Some tx \<Rightarrow>
                    (case soap of
                       JObj d \<Rightarrow>
                         (case merge_master facts_map tx_map lines of
                            Inl e \<Rightarrow> Inl e
                          | Inr out \<Rightarrow> Inr (master_record facts tx d (sp_custom_id j) # out))
                     | _ \<Rightarrow> Inl TypeError))))"

section \<open>merge_soap_clean.py\<close>

text \<open>
  \<^verbatim>\<open>
  req_facts[cid] = {"row_id": cid, "gender": facts["gender"], "age": int(facts["age"]),
                    "smoker": ..., "drinker": ..., "blood_pressure": facts["bp"],
                    "chief_complaint": facts["cc"]}
  \<close>
\<close>

fun load_requests ::
  "request list \<Rightarrow> (json pydict) pydict \<Rightarrow> py_error + (json pydict) pydict" where
  "load_requests [] req_facts = Inr req_facts"
| "load_requests (j # lines) req_facts =
     (case py_int (rq_age j) of
        Inl e \<Rightarrow> Inl e
      | Inr a \<Rightarrow>
          load_requests lines
            (dict_set req_facts (rq_custom_id j)
               [(''row_id'', JStr (rq_custom_id j)), (''gender'', JStr (rq_gender j)),
                (''age'', JInt a), (''smoker'', JStr (rq_smoker j)),
                (''drinker'', JStr (rq_drinker j)), (''blood_pressure'', JStr (rq_bp j)),
                (''chief_complaint'', JStr (rq_cc j))]))"

text \<open>
  \<^verbatim>\<open>
  for line in fh:
      j = json.loads(line)
      if j["response"]["status_code"] != 200:
          continue
      cid = j["custom_id"]
      soap = json.loads(j["response"]["body"]["choices"][0]["message"]["content"])
      soap_map[cid] = soap
  \<close>
\<close>

fun load_soap_map :: "soap_response list \<Rightarrow> json pydict \<Rightarrow> py_error + json pydict" where
  "load_soap_map [] soap_map = Inr soap_map"
| "load_soap_map (j # lines) soap_map =
     (if sp_status_code j \<noteq> 200 then load_soap_map lines soap_map
      else case sp_soap j of
        None \<Rightarrow> Inl JSONDecodeError
      | Some soap \<Rightarrow> load_soap_map lines (dict_set soap_map (sp_custom_id j) soap))"

text \<open>
  \<^verbatim>\<open>
  for cid, base in req_facts.items():
      if cid not in soap_map:
          continue
      record = {**base, **soap_map[cid]}
      fh.write(json.dumps(record, ensure_ascii=False) + "\n")
  \<close>
  The result is the list of the records written, in the order of the file.
\<close>

fun merge_write :: "(json pydict) pydict \<Rightarrow> json pydict \<Rightarrow> py_error + json pydict list" where
  "merge_write [] soap_map = Inr []"
| "merge_write ((cid, base) # items) soap_map =
     (case map_of soap_map cid of
        None \<Rightarrow> merge_write items soap_map
      | Some (JObj soap) \<Rightarrow>
          (case merge_write items soap_map of
             Inl e \<Rightarrow> Inl e
           | Inr out \<Rightarrow> Inr (dict_update base soap # out))
      | Some _ \<Rightarrow> Inl TypeError)"

text \<open>
  The whole script: what it writes to \<open>data/synthetic_patients_with_soap.jsonl\<close> and
  the number of lines it prints at the end, its only report.
\<close>

definition merge_soap_clean ::
  "request list \<Rightarrow> soap_response list \<Rightarrow> py_error + (json pydict list \<times> nat)" where
  "merge_soap_clean input_lines output_lines =
     (case load_requests input_lines [] of
        Inl e \<Rightarrow> Inl e
      | Inr req_facts \<Rightarrow>
          (case load_soap_map output_lines [] of
             Inl e \<Rightarrow> Inl e
           | Inr soap_map \<Rightarrow>
               (case merge_write req_facts soap_map of
                  Inl e \<Rightarrow> Inl e
                | Inr out \<Rightarrow> Inr (out, length out))))"

section \<open>generate_transcriptions_batch.py\<close>

text \<open>
  \<^verbatim>\<open>
  def build_rows(_n: int) -> pd.DataFrame:
      rows = []
      for i in range(CONFIG["TARGET_ROWS"]):
          gender = rand_gen(); age = rand_age(); smoker = rand_yn()
          drinker = rand_yn(); bp = rand_bp(); cc = rand_cc()
          rows.append({"row_id": f"row{i:04d}", "gender": gender, "age": age,
                       "smoker": smoker, "drinker": drinker,
                       "blood_pressure": bp, "chief_complaint": cc})
      return pd.DataFrame(rows)
  \<close>
  The random choices are an input: \<open>rnd i\<close> is what the six helpers draw in iteration
  \<open>i\<close>. The argument of the function (\<open>_n\<close> in the source) is not used by its body.
\<close>

definition TARGET_ROWS :: nat where
  "TARGET_ROWS = 1032"

record draw =
  d_gender :: string
  d_age :: int
  d_smoker :: string
  d_drinker :: string
  d_bp :: string
  d_cc :: string

record row =
  row_id :: string
  gender :: string
  age :: int
  smoker :: string
  drinker :: string
  blood_pressure :: string
  chief_complaint :: string

definition build_rows :: "(nat \<Rightarrow> draw) \<Rightarrow> nat \<Rightarrow> row list" where
  "build_rows rnd n_arg =
     map (\<lambda>i. \<lparr>row_id = ''row'' @ fmt_04d i,
               gender = d_gender (rnd i),
               age = d_age (rnd i),
               smoker = d_smoker (rnd i),
               drinker = d_drinker (rnd i),
               blood_pressure = d_bp (rnd i),
               chief_complaint = d_cc (rnd i)\<rparr>) [0..<TARGET_ROWS]"

text \<open>
  The request file \<open>batch_input.jsonl\<close>, one request per row with
  \<open>"custom_id": r["row_id"]\<close>; the file is uploaded as it is.
\<close>

record tx_request =
  tq_custom_id :: string
  tq_row :: row

definition write_batch_input :: "row list \<Rightarrow> tx_request list" where
  "write_batch_input df = map (\<lambda>r. \<lparr>tq_custom_id = row_id r, tq_row = r\<rparr>) df"

section \<open>generate_transcriptions.py\<close>

text \<open>
  A generated record, and its key
  \<^verbatim>\<open>key = tuple(rec[f] for f in UNIQUE_KEY)\<close> over the seven fields.
\<close>

record patient =
  p_gender :: string
  p_age :: int
  p_smoker :: string
  p_drinker :: string
  p_blood_pressure :: string
  p_chief_complaint :: string
  p_transcription :: string

type_synonym unique_key = "string \<times> int \<times> string \<times> string \<times> string \<times> string \<times> string"

definition UNIQUE_KEY :: "patient \<Rightarrow> unique_key" where
  "UNIQUE_KEY rc = (p_gender rc, p_age rc, p_smoker rc, p_drinker rc, p_blood_pressure rc,
     p_chief_complaint rc, p_transcription rc)"

text \<open>The three entries of \<open>CONFIG\<close> that the main loop reads.\<close>

record gen_config =
  cfg_TARGET_ROWS :: nat
  cfg_BATCH_SIZE :: nat
  cfg_CHECKPOINT_ROWS :: nat

definition CONFIG :: gen_config where
  "CONFIG = \<lparr>cfg_TARGET_ROWS = 1032, cfg_BATCH_SIZE = 10, cfg_CHECKPOINT_ROWS = 100\<rparr>"

text \<open>
  The variables of \<open>main\<close>, and the checkpoint files written so far (index and
  content).
\<close>

record gen_state =
  rows :: "patient list"
  seen :: "unique_key set"
  chunk_idx :: nat
  checkpoints :: "(nat \<times> patient list) list"

definition init_state :: gen_state where
  "init_state = \<lparr>rows = [], seen = {}, chunk_idx = 0, checkpoints = []\<rparr>"

text \<open>
  \<^verbatim>\<open>
  for rec in await asyncio.gather(*batch_jobs):
      key = tuple(rec[f] for f in UNIQUE_KEY)
      if key in seen:
          continue
      rows.append(rec)
      seen.add(key)
  \<close>
\<close>

fun accept_batch :: "patient list \<Rightarrow> gen_state \<Rightarrow> gen_state" where
  "accept_batch [] st = st"
| "accept_batch (rc # recs) st =
     (let key = UNIQUE_KEY rc
      in if key \<in> seen st then accept_batch recs st
         else accept_batch recs (st\<lparr>rows := rows st @ [rc], seen := insert key (seen st)\<rparr>))"

text \<open>
  \<^verbatim>\<open>
  if len(rows) // CONFIG["CHECKPOINT_ROWS"] > chunk_idx:
      chunk_idx += 1
      write_jsonl(out_dir / f"patients_{chunk_idx:03d}.jsonl", rows[-CONFIG["CHECKPOINT_ROWS"]:])
  \<close>
\<close>

definition checkpoint :: "gen_config \<Rightarrow> gen_state \<Rightarrow> py_error + gen_state" where
  "checkpoint cfg st =
     (if cfg_CHECKPOINT_ROWS cfg = 0 then Inl ZeroDivisionError
      else if length (rows st) div cfg_CHECKPOINT_ROWS cfg > chunk_idx st
      then Inr (st\<lparr>chunk_idx := chunk_idx st + 1,
                    checkpoints := checkpoints st @
                      [(chunk_idx st + 1,
                        drop (length (rows st) - cfg_CHECKPOINT_ROWS cfg) (rows st))]\<rparr>)
      else Inr st)"

text \<open>
  One iteration of the \<open>while\<close> loop. The generator is an input: \<open>gen round i\<close> is the
  record that the \<open>i\<close>-th call of \<open>generate_one\<close> in iteration \<open>round\<close> returns (a call
  that still raises after its retries ends the process and is not modelled).
  \<^verbatim>\<open>
  batch_size = min(CONFIG["BATCH_SIZE"], CONFIG["TARGET_ROWS"] - len(rows))
  batch_jobs = [generate_one() for _ in range(batch_size)]
  \<close>
\<close>

definition loop_body ::
  "gen_config \<Rightarrow> (nat \<Rightarrow> nat \<Rightarrow> patient) \<Rightarrow> nat \<Rightarrow> gen_state \<Rightarrow> py_error + gen_state" where
  "loop_body cfg gen round st =
     (let batch_size = min (cfg_BATCH_SIZE cfg) (cfg_TARGET_ROWS cfg - length (rows st));
          batch = map (gen round) [0..<batch_size]
      in checkpoint cfg (accept_batch batch st))"

text \<open>
  \<^verbatim>\<open>while len(rows) < CONFIG["TARGET_ROWS"]: ...\<close>
  The loop has no bound of its own (a generator that keeps returning records already
  seen keeps it running): the model takes fuel, the number of iterations allowed, and
  returns \<open>None\<close> when the fuel ends before the loop does. The rows of the final state
  are what \<open>write_jsonl(master_path, rows)\<close> writes.
\<close>

fun main_loop ::
  "gen_config \<Rightarrow> (nat \<Rightarrow> nat \<Rightarrow> patient) \<Rightarrow> nat \<Rightarrow> nat \<Rightarrow> gen_state
     \<Rightarrow> (py_error + gen_state) option" where
  "main_loop cfg gen fuel round st =
     (if length (rows st) < cfg_TARGET_ROWS cfg
      then (case fuel of
              0 \<Rightarrow> None
            | Suc fuel' \<Rightarrow>
                (case loop_body cfg gen round st of
                   Inl e \<Rightarrow> Some (Inl e)
                 | Inr st' \<Rightarrow> main_loop cfg gen fuel' (Suc round) st'))
      else Some (Inr st))"

declare main_loop.simps [simp del]

definition unique_inv :: "gen_state \<Rightarrow> bool" where
  "unique_inv st =
     (distinct (map UNIQUE_KEY (rows st)) \<and> seen st = set (map UNIQUE_KEY (rows st)))"

section \<open>Notions used in the statements\<close>

text \<open>
  The ids of the requests that have no successful response in the output of the
  transcript job.
\<close>

definition unanswered :: "request list \<Rightarrow> tx_response list \<Rightarrow> string set" where
  "unanswered input_lines output_lines =
     set (map rq_custom_id input_lines)
       - set (map tx_custom_id (filter (\<lambda>r. tx_status_code r = 200) output_lines))"

text \<open>
  The records written by \<open>merge_soap_clean.py\<close> against the requests that have a
  payload: position by position, the record is the request's facts updated with the
  payload of the same id, an object.
\<close>

definition paired :: "(json pydict) pydict \<Rightarrow> json pydict \<Rightarrow> json pydict list \<Rightarrow> bool" where
  "paired req_facts soap_map out =
     list_all2 (\<lambda>(cid, base) rc. \<exists>soap. map_of soap_map cid = Some (JObj soap)
                                  \<and> rc = dict_update base soap)
       (filter (\<lambda>(cid, base). cid \<in> fst ` set soap_map) req_facts) out"

text \<open>
  The records written by step 9 of \<open>generate_soap_notes.py\<close> against the successful
  lines of the SOAP output: position by position, the record is built from the facts and
  the transcription of the line's id and from its payload, an object.
\<close>

definition master_paired ::
  "(json pydict) pydict \<Rightarrow> string pydict \<Rightarrow> soap_response list \<Rightarrow> json pydict list \<Rightarrow> bool" where
  "master_paired facts_map tx_map lines out =
     list_all2 (\<lambda>j rc. \<exists>facts tx d. map_of facts_map (sp_custom_id j) = Some facts
                    \<and> map_of tx_map (sp_custom_id j) = Some tx
                    \<and> sp_soap j = Some (JObj d)
                    \<and> rc = master_record facts tx d (sp_custom_id j))
       (filter (\<lambda>j. sp_status_code j = 200) lines) out"

text \<open>
  What a merged record holds at a key: the payload's value when the payload has the
  key, the value of the WorkItem's fields otherwise.
\<close>

definition overwrites :: "json pydict \<Rightarrow> json pydict \<Rightarrow> json pydict \<Rightarrow> string \<Rightarrow> bool" where
  "overwrites rc base soap k =
     (case map_of soap k of
        Some v \<Rightarrow> map_of rc k = Some v
      | None \<Rightarrow> map_of rc k = map_of base k)"

section \<open>Sample data\<close>

text \<open>Concrete inputs, at which the theorems below are evaluated.\<close>

definition rq :: "string \<Rightarrow> request" where
  "rq cid = \<lparr>rq_custom_id = cid, rq_gender = ''Male'', rq_age = ''42'', rq_smoker = ''No'',
     rq_drinker = ''Yes'', rq_bp = ''120/80'', rq_cc = ''cough''\<rparr>"

definition tx_ok :: "string \<Rightarrow> tx_response" where
  "tx_ok cid = \<lparr>tx_custom_id = cid, tx_status_code = 200,
     tx_content = tx_open @ '': '' @ [dq] @ ''hello'' @ [dq] @ ''}''\<rparr>"

definition tx_noise :: "string \<Rightarrow> tx_response" where
  "tx_noise cid = \<lparr>tx_custom_id = cid, tx_status_code = 200,
     tx_content = ''I cannot help with that request.''\<rparr>"

definition sample_soap :: "json pydict" where
  "sample_soap = [(''subjective'', JStr ''s''), (''gender'', JStr ''Female'')]"

definition soap_ok :: "string \<Rightarrow> soap_response" where
  "soap_ok cid = \<lparr>sp_custom_id = cid, sp_status_code = 200, sp_soap = Some (JObj sample_soap)\<rparr>"

definition base_of :: "string \<Rightarrow> json pydict" where
  "base_of cid =
     [(''row_id'', JStr cid), (''gender'', JStr ''Male''), (''age'', JInt 42),
      (''smoker'', JStr ''No''), (''drinker'', JStr ''Yes''),
      (''blood_pressure'', JStr ''120/80''), (''chief_complaint'', JStr ''cough'')]"

definition merged_of :: "string \<Rightarrow> json pydict" where
  "merged_of cid =
     [(''row_id'', JStr cid), (''gender'', JStr ''Female''), (''age'', JInt 42),
      (''smoker'', JStr ''No''), (''drinker'', JStr ''Yes''),
      (''blood_pressure'', JStr ''120/80''), (''chief_complaint'', JStr ''cough''),
      (''subjective'', JStr ''s'')]"

definition facts_of :: "json pydict" where
  "facts_of =
     [(''gender'', JStr ''Male''), (''age'', JStr ''42''), (''smoker'', JStr ''No''),
      (''drinker'', JStr ''Yes''), (''bp'', JStr ''120/80''), (''cc'', JStr ''cough'')]"

definition master_of :: "string \<Rightarrow> string \<Rightarrow> json pydict" where
  "master_of cid tx =
     [(''gender'', JStr ''Female''), (''age'', JStr ''42''), (''smoker'', JStr ''No''),
      (''drinker'', JStr ''Yes''), (''bp'', JStr ''120/80''), (''cc'', JStr ''cough''),
      (''transcription'', JStr tx), (''subjective'', JStr ''s''), (''row_id'', JStr cid)]"

definition sample_draw :: "nat \<Rightarrow> draw" where
  "sample_draw i = \<lparr>d_gender = ''Female'', d_age = 18 + int i mod 73, d_smoker = ''No'',
     d_drinker = ''Yes'', d_bp = ''120/80'', d_cc = ''cough''\<rparr>"

definition small_config :: gen_config where
  "small_config = \<lparr>cfg_TARGET_ROWS = 3, cfg_BATCH_SIZE = 2, cfg_CHECKPOINT_ROWS = 2\<rparr>"

definition sample_gen :: "nat \<Rightarrow> nat \<Rightarrow> patient" where
  "sample_gen round i = \<lparr>p_gender = ''Female'', p_age = 30 + int round + int i,
     p_smoker = ''No'', p_drinker = ''No'', p_blood_pressure = ''120/80'',
     p_chief_complaint = ''cough'', p_transcription = ''Hello''\<rparr>"

section \<open>Lemmas\<close>

subsection \<open>Dicts\<close>

lemma map_of_dict_set: "map_of (dict_set d k v) = (map_of d)(k \<mapsto> v)"
  by (induction d) (auto simp: fun_eq_iff)

lemma map_fst_dict_set:
  "map fst (dict_set d k v) = (if k \<in> fst ` set d then map fst d else map fst d @ [k])"
  by (induction d) force+

lemma keys_dict_set: "fst ` set (dict_set d k v) = insert k (fst ` set d)"
proof -
  have "set (map fst (dict_set d k v)) = insert k (fst ` set d)"
    by (subst map_fst_dict_set) auto
  then show ?thesis by simp
qed

lemma distinct_dict_set: "distinct (map fst d) \<Longrightarrow> distinct (map fst (dict_set d k v))"
  by (subst map_fst_dict_set) auto

lemma map_of_fold_set:
  "distinct (map fst e) \<Longrightarrow>
   map_of (fold (\<lambda>(k, v) acc. dict_set acc k v) e d) k =
     (case map_of e k of Some v \<Rightarrow> Some v | None \<Rightarrow> map_of d k)"
proof (induction e arbitrary: d)
  case Nil
  then show ?case by simp
next
  case (Cons p e)
  obtain k' v' where p: "p = (k', v')" by (cases p)
  from Cons.prems have notin: "map_of e k' = None" and dist: "distinct (map fst e)"
    by (simp_all add: p map_of_eq_None_iff)
  show ?case
    using Cons.IH [OF dist, of "dict_set d k' v'"] notin
    by (auto simp: p map_of_dict_set split: option.splits)
qed

lemma map_of_dict_update:
  "distinct (map fst e) \<Longrightarrow>
   map_of (dict_update d e) k = (case map_of e k of Some v \<Rightarrow> Some v | None \<Rightarrow> map_of d k)"
  by (simp add: dict_update_def map_of_fold_set)

subsection \<open>Decimal digits\<close>

lemma digit_val_char: "d < 10 \<Longrightarrow> digit_val (digit_char d) = d"
proof -
  assume "d < 10"
  then have "d = 0 \<or> d = 1 \<or> d = 2 \<or> d = 3 \<or> d = 4 \<or> d = 5 \<or> d = 6 \<or> d = 7
      \<or> d = 8 \<or> d = 9" by arith
  then show ?thesis by (auto simp: digit_val_def digit_char_def)
qed

lemma dec_value_snoc: "dec_value (s @ [c]) = 10 * dec_value s + digit_val c"
  by (simp add: dec_value_def)

lemma dec_value_show_nat: "dec_value (show_nat n) = n"
proof (induction n rule: show_nat.induct)
  case (1 n)
  show ?case
  proof (cases "n < 10")
    case True
    then show ?thesis
      by (subst show_nat.simps) (simp add: dec_value_def digit_val_char)
  next
    case False
    then have "dec_value (show_nat (n div 10)) = n div 10" using 1 by simp
    with False show ?thesis
      by (subst show_nat.simps) (simp add: dec_value_snoc digit_val_char)
  qed
qed

lemma dec_value_zeros: "dec_value (replicate k (CHR ''0'') @ s) = dec_value s"
  by (induction k) (simp_all add: dec_value_def digit_val_def)

lemma dec_value_fmt: "dec_value (fmt_04d i) = i"
  by (simp add: fmt_04d_def dec_value_zeros dec_value_show_nat)

lemma fmt_04d_inj: "fmt_04d i = fmt_04d j \<Longrightarrow> i = j"
  by (metis dec_value_fmt)

lemma build_rows_distinct: "distinct (map row_id (build_rows rnd n))"
  by (auto simp: build_rows_def distinct_map comp_def inj_on_def dest: fmt_04d_inj)

subsection \<open>The extraction of an array\<close>

lemma set_strip: "set (strip s) \<subseteq> set s"
proof -
  have "set (strip s) \<subseteq> set (dropWhile py_isspace s)"
    unfolding strip_def using set_dropWhileD [of _ py_isspace "rev (dropWhile py_isspace s)"]
    by auto
  also have "\<dots> \<subseteq> set s"
    using set_dropWhileD [of _ py_isspace s] by auto
  finally show ?thesis .
qed

lemma set_sub_opening_fence: "set (sub_opening_fence s) \<subseteq> set s"
proof -
  have "set (dropWhile py_isspace (dropWhile ascii_letter (drop 3 s))) \<subseteq> set s"
    by (meson in_set_dropD set_dropWhileD subsetI)
  then show ?thesis by (simp add: sub_opening_fence_def)
qed

lemma set_match_closing_fence: "match_closing_fence s = Some rest \<Longrightarrow> set rest \<subseteq> set s"
proof -
  assume "match_closing_fence s = Some rest"
  then have "rest = drop 3 (dropWhile py_isspace s)"
    by (auto simp: match_closing_fence_def Let_def split: if_splits)
  then show ?thesis
    by (meson in_set_dropD set_dropWhileD subsetI)
qed

lemma set_sub_closing_fence: "set (sub_closing_fence s) \<subseteq> set s"
proof (induction s)
  case Nil
  then show ?case by simp
next
  case (Cons c cs)
  show ?case
  proof (cases "match_closing_fence (c # cs)")
    case None
    with Cons show ?thesis by auto
  next
    case (Some rest)
    with set_match_closing_fence [OF Some] show ?thesis by simp
  qed
qed

lemma search_array_no_bracket: "CHR ''['' \<notin> set r \<Longrightarrow> search_array r = None"
proof -
  assume "CHR ''['' \<notin> set r"
  then have e: "dropWhile (\<lambda>c. c \<noteq> CHR ''['') r = []" by auto
  show ?thesis unfolding search_array_def e by simp
qed

lemma search_array_brackets:
  assumes "search_array raw = Some m"
  shows "m \<noteq> [] \<and> hd m = CHR ''['' \<and> last m = CHR '']''"
proof -
  define r where "r = dropWhile (\<lambda>c. c \<noteq> CHR ''['') raw"
  define t where "t = dropWhile (\<lambda>c. c \<noteq> CHR '']'') (rev r)"
  from assms have close: "CHR '']'' \<in> set r" and m: "m = rev t"
    by (auto simp: search_array_def r_def t_def Let_def split: if_splits)
  from close have "r \<noteq> []" by auto
  then have hdr: "hd r = CHR ''[''"
    unfolding r_def using hd_dropWhile [of "\<lambda>c. c \<noteq> CHR ''[''" raw] by simp
  from close have tne: "t \<noteq> []" by (simp add: t_def)
  then have hdt: "hd t = CHR '']''"
    unfolding t_def using hd_dropWhile [of "\<lambda>c. c \<noteq> CHR '']''" "rev r"] by simp
  have "rev r = takeWhile (\<lambda>c. c \<noteq> CHR '']'') (rev r) @ t"
    by (simp add: t_def)
  then have "r = rev t @ rev (takeWhile (\<lambda>c. c \<noteq> CHR '']'') (rev r))"
    by (metis rev_append rev_rev_ident)
  with tne have "hd r = hd (rev t)"
    by (metis hd_append2 rev_is_Nil_conv)
  with hdr hdt tne m show ?thesis
    by (simp add: last_rev)
qed

subsection \<open>Splitting at the separator\<close>

lemma split_first:
  "sep \<notin> set a \<Longrightarrow> split_max sep (Suc n) (a @ sep # rest) = a # split_max sep n rest"
proof -
  assume a: "sep \<notin> set a"
  then have "takeWhile (\<lambda>c. c \<noteq> sep) (a @ sep # rest) = a"
    by (induction a) auto
  moreover from a have "dropWhile (\<lambda>c. c \<noteq> sep) (a @ sep # rest) = sep # rest"
    by (induction a) auto
  ultimately show ?thesis by simp
qed

lemma decode_encode:
  assumes "CHR ''_'' \<notin> set parent" and "CHR ''_'' \<notin> set label"
  shows "decode_custom_id (encode_custom_id parent label slug) = Inr (parent, label, slug)"
  using assms
  by (simp add: decode_custom_id_def encode_custom_id_def numeral_2_eq_2 split_first
      del: split_max.simps(2))

lemma decode_augment_ids:
  assumes "CHR ''_'' \<notin> set parent"
    and "list_all (\<lambda>(label, body). CHR ''_'' \<notin> set label) soap"
  shows "map decode_custom_id (augment_ids [(parent, soap)])
     = concat (map (\<lambda>(label, body).
         map (\<lambda>(slug, extra). Inr (parent, label, slug)) FORMAT_VARIANTS) soap)"
  using assms(2)
proof (induction soap)
  case Nil
  then show ?case by (simp add: augment_ids_def)
next
  case (Cons p soap)
  obtain label body where p: "p = (label, body)" by (cases p)
  from Cons.prems have l: "CHR ''_'' \<notin> set label"
    and rest: "list_all (\<lambda>(label, body). CHR ''_'' \<notin> set label) soap"
    by (simp_all add: p)
  have "map decode_custom_id
        (map (\<lambda>(slug, extra). encode_custom_id parent label slug) FORMAT_VARIANTS)
      = map (\<lambda>(slug, extra). Inr (parent, label, slug)) FORMAT_VARIANTS"
    using assms(1) l by (simp add: decode_encode split_def)
  with Cons.IH [OF rest] show ?case
    by (simp add: augment_ids_def p)
qed

subsection \<open>The loaders and the merges\<close>

lemma keys_load_facts_aux:
  "fst ` set (fold (\<lambda>j facts_map. dict_set facts_map (rq_custom_id j) (parse_facts j)) lines m)
     = fst ` set m \<union> rq_custom_id ` set lines"
  by (induction lines arbitrary: m) (auto simp: keys_dict_set)

lemma keys_load_facts: "fst ` set (load_facts lines) = rq_custom_id ` set lines"
  by (simp add: load_facts_def keys_load_facts_aux)

lemma distinct_load_facts_aux:
  "distinct (map fst m) \<Longrightarrow>
   distinct (map fst
     (fold (\<lambda>j facts_map. dict_set facts_map (rq_custom_id j) (parse_facts j)) lines m))"
  by (induction lines arbitrary: m) (simp_all add: distinct_dict_set)

lemma distinct_load_facts: "distinct (map fst (load_facts lines))"
  by (simp add: load_facts_def distinct_load_facts_aux)

lemma keys_load_tx:
  "load_tx lines m = Inr m' \<Longrightarrow>
   fst ` set m' = fst ` set m \<union> tx_custom_id ` {r \<in> set lines. tx_status_code r = 200}"
proof (induction lines arbitrary: m)
  case Nil
  then show ?case by simp
next
  case (Cons j lines)
  show ?case
  proof (cases "tx_status_code j = 200")
    case False
    with Cons show ?thesis by auto
  next
    case True
    with Cons.prems obtain tx where tx: "grab_tx (tx_content j) = Some tx"
      and rest: "load_tx lines (dict_set m (tx_custom_id j) tx) = Inr m'"
      by (auto split: option.splits)
    from Cons.IH [OF rest] True show ?thesis
      by (auto simp: keys_dict_set)
  qed
qed

lemma load_tx_error:
  "load_tx lines m = Inl e \<Longrightarrow>
   \<exists>cid. e = ValueError (''Bad JSON in transcription for '' @ cid)"
  by (induction lines arbitrary: m) (auto split: if_splits option.splits)

lemma load_tx_bad:
  assumes "list_all (\<lambda>r. tx_status_code r \<noteq> 200 \<or> grab_tx (tx_content r) \<noteq> None) pre"
    and "tx_status_code bad = 200" and "grab_tx (tx_content bad) = None"
  shows "load_tx (pre @ bad # post) m
     = Inl (ValueError (''Bad JSON in transcription for '' @ tx_custom_id bad))"
  using assms by (induction pre arbitrary: m) auto

lemma build_soap_input_ids:
  "build_soap_input facts_map tx_map = Inr reqs \<Longrightarrow> map sr_custom_id reqs = map fst facts_map"
proof (induction facts_map arbitrary: reqs)
  case Nil
  then show ?case by simp
next
  case (Cons p items)
  obtain cid facts where p: "p = (cid, facts)" by (cases p)
  from Cons.prems obtain tx reqs' where "build_soap_input items tx_map = Inr reqs'"
    and "reqs = \<lparr>sr_custom_id = cid, sr_facts = facts, sr_tx = tx\<rparr> # reqs'"
    by (auto simp: p split: option.splits sum.splits)
  with Cons.IH [of reqs'] show ?case by (simp add: p)
qed

lemma prepare_distinct:
  "soap_notes_prepare input_lines output_lines = Inr reqs \<Longrightarrow> distinct (map sr_custom_id reqs)"
  by (auto simp: soap_notes_prepare_def Let_def build_soap_input_ids distinct_load_facts
      split: sum.splits if_splits)

lemma load_requests_keys:
  "load_requests lines m = Inr m' \<Longrightarrow>
   fst ` set m' = fst ` set m \<union> rq_custom_id ` set lines
   \<and> (distinct (map fst m) \<longrightarrow> distinct (map fst m'))"
proof (induction lines arbitrary: m)
  case Nil
  then show ?case by simp
next
  case (Cons j lines)
  from Cons.prems obtain a where
    rest: "load_requests lines (dict_set m (rq_custom_id j)
       [(''row_id'', JStr (rq_custom_id j)), (''gender'', JStr (rq_gender j)),
        (''age'', JInt a), (''smoker'', JStr (rq_smoker j)),
        (''drinker'', JStr (rq_drinker j)), (''blood_pressure'', JStr (rq_bp j)),
        (''chief_complaint'', JStr (rq_cc j))]) = Inr m'"
    by (auto split: sum.splits)
  from Cons.IH [OF rest] show ?case
    by (auto simp: keys_dict_set distinct_dict_set)
qed

lemma load_soap_map_keys:
  "load_soap_map lines m = Inr m' \<Longrightarrow>
   fst ` set m' = fst ` set m \<union> sp_custom_id ` {j \<in> set lines. sp_status_code j = 200}"
proof (induction lines arbitrary: m)
  case Nil
  then show ?case by simp
next
  case (Cons j lines)
  show ?case
  proof (cases "sp_status_code j = 200")
    case False
    with Cons show ?thesis by auto
  next
    case True
    with Cons.prems obtain soap where
      rest: "load_soap_map lines (dict_set m (sp_custom_id j) soap) = Inr m'"
      by (auto split: option.splits)
    from Cons.IH [OF rest] True show ?thesis
      by (auto simp: keys_dict_set)
  qed
qed

lemma merge_write_paired: "merge_write req_facts soap_map = Inr out \<Longrightarrow> paired req_facts soap_map out"
proof (induction req_facts arbitrary: out)
  case Nil
  then show ?case by (simp add: paired_def)
next
  case (Cons p items)
  obtain cid base where p: "p = (cid, base)" by (cases p)
  show ?case
  proof (cases "map_of soap_map cid")
    case None
    then have "cid \<notin> fst ` set soap_map" by (simp add: map_of_eq_None_iff)
    with Cons None show ?thesis by (simp add: p paired_def)
  next
    case (Some payload)
    then have mem: "cid \<in> fst ` set soap_map"
      by (metis map_of_eq_None_iff option.distinct(1))
    from Some Cons.prems obtain soap out' where
      "payload = JObj soap" "merge_write items soap_map = Inr out'"
      "out = dict_update base soap # out'"
      by (auto simp: p split: json.splits sum.splits)
    with Cons.IH [of out'] Some mem show ?thesis by (simp add: p paired_def)
  qed
qed

lemma merge_master_paired:
  "merge_master facts_map tx_map lines = Inr out \<Longrightarrow> master_paired facts_map tx_map lines out"
proof (induction lines arbitrary: out)
  case Nil
  then show ?case by (simp add: master_paired_def)
next
  case (Cons j lines)
  show ?case
  proof (cases "sp_status_code j = 200")
    case False
    with Cons show ?thesis by (simp add: master_paired_def)
  next
    case True
    with Cons.prems obtain facts tx d out' where
      "map_of facts_map (sp_custom_id j) = Some facts" "map_of tx_map (sp_custom_id j) = Some tx"
      "sp_soap j = Some (JObj d)" "merge_master facts_map tx_map lines = Inr out'"
      "out = master_record facts tx d (sp_custom_id j) # out'"
      by (auto split: option.splits json.splits sum.splits)
    with Cons.IH [of out'] True show ?thesis by (simp add: master_paired_def)
  qed
qed

lemma overwrites_dict_update:
  "distinct (map fst soap) \<Longrightarrow> overwrites (dict_update base soap) base soap k"
  by (simp add: overwrites_def map_of_dict_update split: option.splits)

lemma overwrites_master_record:
  "distinct (map fst d) \<Longrightarrow> k \<noteq> ''row_id'' \<Longrightarrow>
   overwrites (master_record facts tx d cid) (dict_set facts ''transcription'' (JStr tx)) d k"
  by (simp add: overwrites_def master_record_def map_of_dict_set map_of_dict_update
      split: option.splits)

lemma master_record_row_id: "map_of (master_record facts tx d cid) ''row_id'' = Some (JStr cid)"
  by (simp add: master_record_def map_of_dict_set)

lemma merge_write_mem:
  "merge_write req_facts soap_map = Inr out \<Longrightarrow> (cid, base) \<in> set req_facts \<Longrightarrow>
   map_of soap_map cid = Some (JObj soap) \<Longrightarrow> dict_update base soap \<in> set out"
proof (induction req_facts arbitrary: out)
  case Nil
  then show ?case by simp
next
  case (Cons p items)
  obtain cid' base' where p: "p = (cid', base')" by (cases p)
  show ?case
  proof (cases "map_of soap_map cid'")
    case None
    with Cons.prems have "merge_write items soap_map = Inr out" and "(cid, base) \<in> set items"
      by (auto simp: p)
    with Cons.IH [of out] Cons.prems(3) show ?thesis by simp
  next
    case (Some payload)
    with Cons.prems(1) obtain soap' out' where
      s: "payload = JObj soap'" and r: "merge_write items soap_map = Inr out'"
      and o: "out = dict_update base' soap' # out'"
      by (auto simp: p split: json.splits sum.splits)
    show ?thesis
    proof (cases "(cid, base) = (cid', base')")
      case True
      with Some s Cons.prems(3) have "soap' = soap" by simp
      with True o show ?thesis by simp
    next
      case False
      with Cons.prems(2) have "(cid, base) \<in> set items" by (auto simp: p)
      from Cons.IH [OF r this Cons.prems(3)] o show ?thesis by simp
    qed
  qed
qed

lemma merge_write_origin:
  "merge_write req_facts soap_map = Inr out \<Longrightarrow> rc \<in> set out \<Longrightarrow>
   \<exists>cid base soap. (cid, base) \<in> set req_facts \<and> map_of soap_map cid = Some (JObj soap)
      \<and> rc = dict_update base soap"
proof (induction req_facts arbitrary: out)
  case Nil
  then show ?case by simp
next
  case (Cons p items)
  obtain cid' base' where p: "p = (cid', base')" by (cases p)
  show ?case
  proof (cases "map_of soap_map cid'")
    case None
    with Cons.prems have "merge_write items soap_map = Inr out" by (simp add: p)
    from Cons.IH [OF this Cons.prems(2)] show ?thesis by auto
  next
    case (Some payload)
    with Cons.prems(1) obtain soap' out' where
      s: "payload = JObj soap'" and r: "merge_write items soap_map = Inr out'"
      and o: "out = dict_update base' soap' # out'"
      by (auto simp: p split: json.splits sum.splits)
    show ?thesis
    proof (cases "rc = dict_update base' soap'")
      case True
      with Some s show ?thesis by (auto simp: p)
    next
      case False
      with Cons.prems(2) o have "rc \<in> set out'" by simp
      from Cons.IH [OF r this] show ?thesis by auto
    qed
  qed
qed

lemma merge_master_step:
  assumes "merge_master facts_map tx_map (j # lines) = Inr out" and "sp_status_code j = 200"
  shows "\<exists>facts tx d out'. map_of facts_map (sp_custom_id j) = Some facts
      \<and> map_of tx_map (sp_custom_id j) = Some tx \<and> sp_soap j = Some (JObj d)
      \<and> merge_master facts_map tx_map lines = Inr out'
      \<and> out = master_record facts tx d (sp_custom_id j) # out'"
  using assms by (auto split: option.splits json.splits sum.splits)

lemma merge_master_mem:
  "merge_master facts_map tx_map lines = Inr out \<Longrightarrow> j \<in> set lines \<Longrightarrow>
   sp_status_code j = 200 \<Longrightarrow> sp_soap j = Some (JObj d) \<Longrightarrow>
   \<exists>facts tx. map_of facts_map (sp_custom_id j) = Some facts
      \<and> map_of tx_map (sp_custom_id j) = Some tx
      \<and> master_record facts tx d (sp_custom_id j) \<in> set out"
proof (induction lines arbitrary: out)
  case Nil
  then show ?case by simp
next
  case (Cons j' lines)
  show ?case
  proof (cases "sp_status_code j' = 200")
    case False
    with Cons.prems have "merge_master facts_map tx_map lines = Inr out" and "j \<in> set lines"
      by auto
    from Cons.IH [OF this Cons.prems(3,4)] show ?thesis .
  next
    case True
    from merge_master_step [OF Cons.prems(1) True] obtain facts tx d' out' where
      f: "map_of facts_map (sp_custom_id j') = Some facts"
      and t: "map_of tx_map (sp_custom_id j') = Some tx"
      and s: "sp_soap j' = Some (JObj d')"
      and r: "merge_master facts_map tx_map lines = Inr out'"
      and o: "out = master_record facts tx d' (sp_custom_id j') # out'"
      by blast
    show ?thesis
    proof (cases "j = j'")
      case True
      with s Cons.prems(4) have "d' = d" by simp
      with True f t o show ?thesis by simp
    next
      case False
      with Cons.prems(2) have "j \<in> set lines" by simp
      from Cons.IH [OF r this Cons.prems(3,4)] o show ?thesis by auto
    qed
  qed
qed

lemma merge_master_origin:
  "merge_master facts_map tx_map lines = Inr out \<Longrightarrow> rc \<in> set out \<Longrightarrow>
   \<exists>j facts tx d. j \<in> set lines \<and> sp_status_code j = 200 \<and> sp_soap j = Some (JObj d)
      \<and> map_of facts_map (sp_custom_id j) = Some facts
      \<and> map_of tx_map (sp_custom_id j) = Some tx
      \<and> rc = master_record facts tx d (sp_custom_id j)"
proof (induction lines arbitrary: out)
  case Nil
  then show ?case by simp
next
  case (Cons j' lines)
  show ?case
  proof (cases "sp_status_code j' = 200")
    case False
    with Cons.prems have "merge_master facts_map tx_map lines = Inr out" by simp
    from Cons.IH [OF this Cons.prems(2)] show ?thesis by auto
  next
    case True
    from merge_master_step [OF Cons.prems(1) True] obtain facts tx d' out' where
      f: "map_of facts_map (sp_custom_id j') = Some facts"
      and t: "map_of tx_map (sp_custom_id j') = Some tx"
      and s: "sp_soap j' = Some (JObj d')"
      and r: "merge_master facts_map tx_map lines = Inr out'"
      and o: "out = master_record facts tx d' (sp_custom_id j') # out'"
      by blast
    show ?thesis
    proof (cases "rc = master_record facts tx d' (sp_custom_id j')")
      case eq: True
      have "j' \<in> set (j' # lines)" by simp
      with True f t s eq show ?thesis by blast
    next
      case False
      with Cons.prems(2) o have "rc \<in> set out'" by simp
      from Cons.IH [OF r this] show ?thesis by auto
    qed
  qed
qed

subsection \<open>The transcript generator\<close>

lemma accept_batch_inv: "unique_inv st \<Longrightarrow> unique_inv (accept_batch batch st)"
  by (induction batch arbitrary: st) (auto simp: unique_inv_def Let_def)

lemma checkpoint_inv: "unique_inv st \<Longrightarrow> checkpoint cfg st = Inr st' \<Longrightarrow> unique_inv st'"
  by (auto simp: checkpoint_def unique_inv_def split: if_splits)

lemma loop_body_inv: "unique_inv st \<Longrightarrow> loop_body cfg gen round st = Inr st' \<Longrightarrow> unique_inv st'"
  unfolding loop_body_def Let_def
  by (rule checkpoint_inv [OF accept_batch_inv])

lemma init_inv: "unique_inv init_state"
  by (simp add: unique_inv_def init_state_def)

lemma main_loop_inv:
  "unique_inv st \<Longrightarrow> main_loop cfg gen fuel round st = Some (Inr st') \<Longrightarrow>
   unique_inv st' \<and> cfg_TARGET_ROWS cfg \<le> length (rows st')"
proof (induction fuel arbitrary: round st)
  case 0
  then show ?case
    by (simp add: main_loop.simps split: if_splits)
next
  case (Suc fuel)
  show ?case
  proof (cases "length (rows st) < cfg_TARGET_ROWS cfg")
    case False
    with Suc.prems show ?thesis by (simp add: main_loop.simps)
  next
    case True
    with Suc.prems obtain st1 where b: "loop_body cfg gen round st = Inr st1"
      and r: "main_loop cfg gen fuel (Suc round) st1 = Some (Inr st')"
      by (subst (asm) main_loop.simps) (auto split: sum.splits)
    from loop_body_inv [OF Suc.prems(1) b] have "unique_inv st1" .
    from Suc.IH [OF this r] show ?thesis .
  qed
qed

section \<open>Theorems\<close>

subsection \<open>The poll loops\<close>

text \<open>
  C5. Both poll loops, given a script that answers two non-terminal statuses (Pending,
  Running) and then \<open>completed\<close>, leave normally after exactly three polls and two
  sleeps, and whatever the script would answer afterwards is never asked for. Given one
  non-terminal status and then \<open>failed\<close>, they end the process with the job-failed error
  (\<open>RuntimeError\<close>, \<open>sys.exit\<close>) after exactly two polls; the failure is returned at once,
  nothing of the rest of the script is consumed, so it is not retried.
\<close>

theorem poll_scripted:
  assumes "waiting pending" and "waiting running"
  shows "poll_tx ([pending, running, ''completed''] @ later) 0 0 = Some (Inr (), 3, 2, later)
    \<and> poll_soap ([pending, running, ''completed''] @ later) 0 0 = Some (Inr (), 3, 2, later)
    \<and> poll_tx ([pending, ''failed''] @ later) 0 0
        = Some (Inl (RuntimeError ''Batch failed''), 2, 1, later)
    \<and> poll_soap ([pending, ''failed''] @ later) 0 0
        = Some (Inl (SystemExit ''batch failed''), 2, 1, later)"
  using assms by (simp add: waiting_def numeral_eq_Suc)

theorem poll_scripted_witness:
  "waiting ''validating'' \<and> waiting ''in_progress''
    \<and> poll_tx [''validating'', ''in_progress'', ''completed''] 0 0 = Some (Inr (), 3, 2, [])
    \<and> poll_soap [''validating'', ''in_progress'', ''completed''] 0 0 = Some (Inr (), 3, 2, [])
    \<and> poll_tx [''validating'', ''failed''] 0 0
        = Some (Inl (RuntimeError ''Batch failed''), 2, 1, [])
    \<and> poll_soap [''validating'', ''failed''] 0 0
        = Some (Inl (SystemExit ''batch failed''), 2, 1, [])"
proof -
  have p: "waiting ''validating''" and r: "waiting ''in_progress''"
    by (simp_all add: waiting_def)
  show ?thesis
    using p r poll_scripted [OF p r, of "[]"] by simp
qed

subsection \<open>Composite custom ids\<close>

text \<open>
  C2. Decoding inverts encoding. For every parent id without an underscore, every
  section label without an underscore and every format slug (a slug may contain
  underscores, as \<open>brev_bp\<close> does), splitting the encoded id at its first two underscores
  gives back exactly the parent, the label and the slug; in particular for each of the
  four section labels of a SOAP note with each of the five format slugs, and for every
  id that the augmentation stage writes to its request file for a note of that parent
  whose labels have no underscore.
\<close>

theorem custom_id_roundtrip:
  assumes "CHR ''_'' \<notin> set parent"
  shows "(CHR ''_'' \<notin> set label \<longrightarrow>
            decode_custom_id (encode_custom_id parent label slug) = Inr (parent, label, slug))
    \<and> (\<forall>l \<in> set SOAP_LABELS. \<forall>(s, extra) \<in> set FORMAT_VARIANTS.
          decode_custom_id (encode_custom_id parent l s) = Inr (parent, l, s))
    \<and> (list_all (\<lambda>(label, body). CHR ''_'' \<notin> set label) soap \<longrightarrow>
          map decode_custom_id (augment_ids [(parent, soap)])
            = concat (map (\<lambda>(label, body).
                map (\<lambda>(slug, extra). Inr (parent, label, slug)) FORMAT_VARIANTS) soap))"
proof -
  have "\<forall>l \<in> set SOAP_LABELS. CHR ''_'' \<notin> set l"
    by (simp add: SOAP_LABELS_def)
  with assms decode_augment_ids [OF assms, of soap] show ?thesis
    by (auto simp: decode_encode)
qed

theorem custom_id_roundtrip_witness:
  "CHR ''_'' \<notin> set ''row0007'' \<and> CHR ''_'' \<notin> set ''plan''
    \<and> encode_custom_id ''row0007'' ''plan'' ''brev_bp'' = ''row0007_plan_brev_bp''
    \<and> decode_custom_id ''row0007_plan_brev_bp'' = Inr (''row0007'', ''plan'', ''brev_bp'')
    \<and> ''plan'' \<in> set SOAP_LABELS \<and> ''brev_bp'' \<in> fst ` set FORMAT_VARIANTS"
proof -
  have p: "CHR ''_'' \<notin> set ''row0007''" and l: "CHR ''_'' \<notin> set ''plan''"
    by simp_all
  have e: "encode_custom_id ''row0007'' ''plan'' ''brev_bp'' = ''row0007_plan_brev_bp''"
    by (simp add: encode_custom_id_def)
  from custom_id_roundtrip [OF p, where label = "''plan''" and slug = "''brev_bp''"] l
  have "decode_custom_id (encode_custom_id ''row0007'' ''plan'' ''brev_bp'')
      = Inr (''row0007'', ''plan'', ''brev_bp'')"
    by blast
  with p l e show ?thesis
    by (simp add: SOAP_LABELS_def FORMAT_VARIANTS_def)
qed

subsection \<open>The extraction of an array\<close>

text \<open>
  C3, as amended. \<open>clean_json\<close> recovers arrays only. Applied to the fenced content it
  returns the text \<open>[1,2,3]\<close>. Its result is always empty or a text from an opening
  bracket to a closing bracket, and it is empty for every content without an opening
  bracket: from prose around an object, such as the second example, nothing is
  recovered, and \<open>json.loads\<close> is then given the empty text.
\<close>

theorem clean_json_arrays_only:
  "clean_json fenced_example = ''[1,2,3]''
    \<and> (clean_json raw = [] \<or> hd (clean_json raw) = CHR ''['' \<and> last (clean_json raw) = CHR '']'')
    \<and> (CHR ''['' \<notin> set raw \<longrightarrow> clean_json raw = [])"
proof -
  have ex: "clean_json fenced_example = ''[1,2,3]''"
    by (simp add: clean_json_def fenced_example_def fence_def strip_def py_isspace_def
        startswith_def sub_opening_fence_def ascii_letter_def match_closing_fence_def
        search_array_def)
  define cleaned where "cleaned = (let r = strip raw in
      if startswith r fence then sub_closing_fence (sub_opening_fence r) else r)"
  have cj: "clean_json raw = (case search_array cleaned of Some m \<Rightarrow> m | None \<Rightarrow> [])"
    by (simp add: clean_json_def cleaned_def Let_def)
  have sub: "set cleaned \<subseteq> set raw"
    using set_strip [of raw] set_sub_opening_fence [of "strip raw"]
      set_sub_closing_fence [of "sub_opening_fence (strip raw)"]
    by (auto simp: cleaned_def Let_def)
  have shape: "clean_json raw = []
      \<or> hd (clean_json raw) = CHR ''['' \<and> last (clean_json raw) = CHR '']''"
    using search_array_brackets [of cleaned] by (auto simp: cj split: option.splits)
  have "CHR ''['' \<notin> set raw \<Longrightarrow> search_array cleaned = None"
    using sub search_array_no_bracket [of cleaned] by blast
  then have none: "CHR ''['' \<notin> set raw \<longrightarrow> clean_json raw = []"
    by (simp add: cj)
  from ex shape none show ?thesis by blast
qed

theorem clean_json_arrays_only_witness:
  "CHR ''['' \<notin> set prose_example \<and> clean_json prose_example = []
    \<and> clean_json fenced_example = ''[1,2,3]''"
proof -
  have h: "CHR ''['' \<notin> set prose_example"
    by (simp add: prose_example_def dq_def)
  with clean_json_arrays_only [of prose_example] show ?thesis by blast
qed

theorem clean_json_object_lost:
  "clean_json prose_example = [] \<and> clean_json prose_example \<noteq> object_text
    \<and> grab_tx prose_example = None"
  by (simp add: clean_json_def prose_example_def object_text_def dq_def fence_def strip_def
      py_isspace_def startswith_def search_array_def grab_tx_def tx_open_def)

subsection \<open>The request builder\<close>

text \<open>
  C7, as amended. \<open>build_rows\<close> does not read its argument: for every count N and every
  sequence of random draws it produces exactly \<open>CONFIG["TARGET_ROWS"]\<close> rows, that is
  1032, and their row ids are pairwise distinct.
\<close>

theorem build_rows_count:
  "length (build_rows rnd n) = TARGET_ROWS \<and> TARGET_ROWS = 1032
    \<and> distinct (map row_id (build_rows rnd n))"
  by (simp add: build_rows_distinct) (simp add: build_rows_def TARGET_ROWS_def)

theorem build_rows_ignores_count:
  "length (build_rows sample_draw 5) = 1032 \<and> length (build_rows sample_draw 5) \<noteq> 5"
  by (simp add: build_rows_def TARGET_ROWS_def)

subsection \<open>The merged record\<close>

text \<open>
  C9. In the merged output record the fields of the payload overwrite the fields
  derived from the WorkItem. Whenever the merge loop of \<open>merge_soap_clean.py\<close>
  finishes, for every request that has a payload (an object, its keys held once) the
  output holds a record that, at every key, has the payload's value when the payload has
  the key and the value of the request's facts otherwise; and every record of the output
  is such a record for some request and its payload. Whenever step 9 of
  \<open>generate_soap_notes.py\<close> finishes, for every successful line of the SOAP output the
  output holds a record with the same property at every key other than \<open>row_id\<close>, the
  WorkItem's fields being the facts of the line's id with its transcription, and with
  the correlation id at \<open>row_id\<close>, which that script assigns last; and every record of
  the output is such a record for some line. No fact key (\<open>gender\<close>, \<open>age\<close>,
  \<open>smoker\<close>, \<open>drinker\<close>, \<open>bp\<close>, \<open>cc\<close>) is \<open>row_id\<close> or \<open>transcription\<close>: at a fact key
  the record holds the payload's value on a collision and the fact otherwise.
\<close>

theorem payload_overwrites:
  "(merge_write req_facts soap_map = Inr out \<and> (cid, base) \<in> set req_facts
      \<and> map_of soap_map cid = Some (JObj soap) \<and> distinct (map fst soap)
      \<longrightarrow> (\<exists>rc \<in> set out. \<forall>k. overwrites rc base soap k))
    \<and> (merge_write req_facts soap_map = Inr out \<and> rc \<in> set out
      \<longrightarrow> (\<exists>cid base soap. (cid, base) \<in> set req_facts
             \<and> map_of soap_map cid = Some (JObj soap)
             \<and> (distinct (map fst soap) \<longrightarrow> (\<forall>k. overwrites rc base soap k))))
    \<and> (merge_master facts_map tx_map lines = Inr out' \<and> j \<in> set lines
      \<and> sp_status_code j = 200 \<and> sp_soap j = Some (JObj d) \<and> distinct (map fst d)
      \<longrightarrow> (\<exists>rc \<in> set out'. \<exists>facts tx.
               map_of facts_map (sp_custom_id j) = Some facts
             \<and> map_of tx_map (sp_custom_id j) = Some tx
             \<and> map_of rc ''row_id'' = Some (JStr (sp_custom_id j))
             \<and> (\<forall>k. k \<noteq> ''row_id'' \<longrightarrow>
                    overwrites rc (dict_set facts ''transcription'' (JStr tx)) d k)))
    \<and> (merge_master facts_map tx_map lines = Inr out' \<and> rc' \<in> set out'
      \<longrightarrow> (\<exists>j facts tx d. j \<in> set lines \<and> sp_status_code j = 200
             \<and> sp_soap j = Some (JObj d)
             \<and> map_of facts_map (sp_custom_id j) = Some facts
             \<and> map_of tx_map (sp_custom_id j) = Some tx
             \<and> map_of rc' ''row_id'' = Some (JStr (sp_custom_id j))
             \<and> (distinct (map fst d) \<longrightarrow> (\<forall>k. k \<noteq> ''row_id'' \<longrightarrow>
                    overwrites rc' (dict_set facts ''transcription'' (JStr tx)) d k))))
    \<and> (key \<in> set (map fst (parse_facts line)) \<longrightarrow>
          key \<noteq> ''row_id'' \<and> key \<noteq> ''transcription''
        \<and> map_of (dict_set (parse_facts line) ''transcription'' (JStr tx0)) key
            = map_of (parse_facts line) key)"
proof -
  have 1: "\<exists>rc \<in> set out. \<forall>k. overwrites rc base soap k"
    if "merge_write req_facts soap_map = Inr out" "(cid, base) \<in> set req_facts"
      "map_of soap_map cid = Some (JObj soap)" "distinct (map fst soap)"
    using merge_write_mem [OF that(1,2,3)] overwrites_dict_update [OF that(4)] by blast
  have 2: "\<exists>cid base soap. (cid, base) \<in> set req_facts
             \<and> map_of soap_map cid = Some (JObj soap)
             \<and> (distinct (map fst soap) \<longrightarrow> (\<forall>k. overwrites rc base soap k))"
    if "merge_write req_facts soap_map = Inr out" "rc \<in> set out"
    using merge_write_origin [OF that] overwrites_dict_update by blast
  have 3: "\<exists>rc \<in> set out'. \<exists>facts tx.
               map_of facts_map (sp_custom_id j) = Some facts
             \<and> map_of tx_map (sp_custom_id j) = Some tx
             \<and> map_of rc ''row_id'' = Some (JStr (sp_custom_id j))
             \<and> (\<forall>k. k \<noteq> ''row_id'' \<longrightarrow>
                    overwrites rc (dict_set facts ''transcription'' (JStr tx)) d k)"
    if "merge_master facts_map tx_map lines = Inr out'" "j \<in> set lines"
      "sp_status_code j = 200" "sp_soap j = Some (JObj d)" "distinct (map fst d)"
    using merge_master_mem [OF that(1,2,3,4)] overwrites_master_record [OF that(5)]
      master_record_row_id by blast
  have 4: "\<exists>j facts tx d. j \<in> set lines \<and> sp_status_code j = 200
             \<and> sp_soap j = Some (JObj d)
             \<and> map_of facts_map (sp_custom_id j) = Some facts
             \<and> map_of tx_map (sp_custom_id j) = Some tx
             \<and> map_of rc' ''row_id'' = Some (JStr (sp_custom_id j))
             \<and> (distinct (map fst d) \<longrightarrow> (\<forall>k. k \<noteq> ''row_id'' \<longrightarrow>
                    overwrites rc' (dict_set facts ''transcription'' (JStr tx)) d k))"
    if "merge_master facts_map tx_map lines = Inr out'" "rc' \<in> set out'"
    using merge_master_origin [OF that] overwrites_master_record master_record_row_id
    by blast
  have 5: "key \<in> set (map fst (parse_facts line)) \<longrightarrow>
          key \<noteq> ''row_id'' \<and> key \<noteq> ''transcription''
        \<and> map_of (dict_set (parse_facts line) ''transcription'' (JStr tx0)) key
            = map_of (parse_facts line) key"
    by (auto simp: parse_facts_def)
  from 1 2 3 4 5 show ?thesis by blast
qed

theorem payload_overwrites_witness:
  "merge_write [(''A'', base_of ''A''), (''B'', base_of ''B''), (''C'', base_of ''C'')]
      [(''A'', JObj sample_soap), (''C'', JObj sample_soap)]
      = Inr [merged_of ''A'', merged_of ''C'']
    \<and> (''A'', base_of ''A'')
        \<in> set [(''A'', base_of ''A''), (''B'', base_of ''B''), (''C'', base_of ''C'')]
    \<and> map_of [(''A'', JObj sample_soap), (''C'', JObj sample_soap)] ''A''
        = Some (JObj sample_soap)
    \<and> distinct (map fst sample_soap)
    \<and> map_of sample_soap ''gender'' = Some (JStr ''Female'')
    \<and> map_of (base_of ''A'') ''gender'' = Some (JStr ''Male'')
    \<and> (\<exists>rc \<in> set [merged_of ''A'', merged_of ''C''].
          map_of rc ''row_id'' = Some (JStr ''A'')
        \<and> map_of rc ''gender'' = Some (JStr ''Female'')
        \<and> map_of rc ''age'' = Some (JInt 42))
    \<and> merge_master [(''A'', facts_of), (''B'', facts_of), (''C'', facts_of)]
        [(''A'', ''ta''), (''B'', ''tb''), (''C'', ''tc'')] [soap_ok ''A'', soap_ok ''C'']
      = Inr [master_of ''A'' ''ta'', master_of ''C'' ''tc'']
    \<and> map_of facts_of ''gender'' = Some (JStr ''Male'')
    \<and> (\<exists>rc \<in> set [master_of ''A'' ''ta'', master_of ''C'' ''tc''].
          map_of rc ''row_id'' = Some (JStr ''A'')
        \<and> map_of rc ''gender'' = Some (JStr ''Female'')
        \<and> map_of rc ''age'' = Some (JStr ''42''))"
proof -
  let ?req = "[(''A'', base_of ''A''), (''B'', base_of ''B''), (''C'', base_of ''C'')]"
  let ?soap = "[(''A'', JObj sample_soap), (''C'', JObj sample_soap)]"
  let ?out = "[merged_of ''A'', merged_of ''C'']"
  let ?fm = "[(''A'', facts_of), (''B'', facts_of), (''C'', facts_of)]"
  let ?tm = "[(''A'', ''ta''), (''B'', ''tb''), (''C'', ''tc'')]"
  let ?lines = "[soap_ok ''A'', soap_ok ''C'']"
  let ?out' = "[master_of ''A'' ''ta'', master_of ''C'' ''tc'']"
  have run: "merge_write ?req ?soap = Inr ?out"
    by (simp add: base_of_def merged_of_def sample_soap_def dict_update_def)
  have mem: "(''A'', base_of ''A'') \<in> set ?req"
    by simp
  have pay: "map_of ?soap ''A'' = Some (JObj sample_soap)"
    by simp
  have d: "distinct (map fst sample_soap)"
    by (simp add: sample_soap_def)
  have look: "map_of sample_soap ''gender'' = Some (JStr ''Female'')"
    "map_of sample_soap ''age'' = None" "map_of sample_soap ''row_id'' = None"
    "map_of (base_of ''A'') ''gender'' = Some (JStr ''Male'')"
    "map_of (base_of ''A'') ''age'' = Some (JInt 42)"
    "map_of (base_of ''A'') ''row_id'' = Some (JStr ''A'')"
    "map_of facts_of ''gender'' = Some (JStr ''Male'')"
    "map_of (dict_set facts_of ''transcription'' (JStr tx)) ''age'' = Some (JStr ''42'')"
    for tx
    by (simp_all add: sample_soap_def base_of_def facts_of_def)
  have "\<exists>rc \<in> set ?out. \<forall>k. overwrites rc (base_of ''A'') sample_soap k"
  proof (rule mp [OF payload_overwrites [where req_facts = ?req and soap_map = ?soap
          and out = ?out and cid = "''A''" and base = "base_of ''A''" and soap = sample_soap,
          THEN conjunct1]])
    from run mem pay d
    show "merge_write ?req ?soap = Inr ?out \<and> (''A'', base_of ''A'') \<in> set ?req
        \<and> map_of ?soap ''A'' = Some (JObj sample_soap) \<and> distinct (map fst sample_soap)"
      by (intro conjI)
  qed
  then obtain rc where rc: "rc \<in> set ?out"
    and ov: "\<forall>k. overwrites rc (base_of ''A'') sample_soap k" ..
  from ov [rule_format, of "''row_id''"] ov [rule_format, of "''gender''"]
    ov [rule_format, of "''age''"]
  have "map_of rc ''row_id'' = Some (JStr ''A'') \<and> map_of rc ''gender'' = Some (JStr ''Female'')
      \<and> map_of rc ''age'' = Some (JInt 42)"
    by (simp add: overwrites_def look)
  with rc have w1: "\<exists>rc \<in> set ?out. map_of rc ''row_id'' = Some (JStr ''A'')
      \<and> map_of rc ''gender'' = Some (JStr ''Female'') \<and> map_of rc ''age'' = Some (JInt 42)"
    by blast
  have run': "merge_master ?fm ?tm ?lines = Inr ?out'"
    by (simp add: soap_ok_def facts_of_def master_of_def master_record_def sample_soap_def
        dict_update_def)
  have j: "soap_ok ''A'' \<in> set ?lines" "sp_status_code (soap_ok ''A'') = 200"
    "sp_soap (soap_ok ''A'') = Some (JObj sample_soap)" "sp_custom_id (soap_ok ''A'') = ''A''"
    by (simp_all add: soap_ok_def)
  have "\<exists>rc \<in> set ?out'. \<exists>facts tx.
        map_of ?fm (sp_custom_id (soap_ok ''A'')) = Some facts
      \<and> map_of ?tm (sp_custom_id (soap_ok ''A'')) = Some tx
      \<and> map_of rc ''row_id'' = Some (JStr (sp_custom_id (soap_ok ''A'')))
      \<and> (\<forall>k. k \<noteq> ''row_id'' \<longrightarrow>
            overwrites rc (dict_set facts ''transcription'' (JStr tx)) sample_soap k)"
  proof (rule mp [OF payload_overwrites [where facts_map = ?fm and tx_map = ?tm
          and lines = ?lines and out' = ?out' and j = "soap_ok ''A''" and d = sample_soap,
          THEN conjunct2, THEN conjunct2, THEN conjunct1]])
    from run' j(1,2,3) d
    show "merge_master ?fm ?tm ?lines = Inr ?out' \<and> soap_ok ''A'' \<in> set ?lines
        \<and> sp_status_code (soap_ok ''A'') = 200
        \<and> sp_soap (soap_ok ''A'') = Some (JObj sample_soap) \<and> distinct (map fst sample_soap)"
      by (intro conjI)
  qed
  then obtain rc' facts tx where rc': "rc' \<in> set ?out'"
    and f: "map_of ?fm (sp_custom_id (soap_ok ''A'')) = Some facts"
    and id: "map_of rc' ''row_id'' = Some (JStr (sp_custom_id (soap_ok ''A'')))"
    and ov': "\<forall>k. k \<noteq> ''row_id'' \<longrightarrow>
        overwrites rc' (dict_set facts ''transcription'' (JStr tx)) sample_soap k"
    by (elim bexE exE conjE)
  from f have facts: "facts = facts_of" by (simp add: j(4))
  have id': "map_of rc' ''row_id'' = Some (JStr ''A'')"
    using id by (simp add: j(4))
  have ne: "''gender'' \<noteq> ''row_id''" "''age'' \<noteq> ''row_id''"
    by simp_all
  from ov' [rule_format, OF ne(1)] ov' [rule_format, OF ne(2)]
  have "map_of rc' ''gender'' = Some (JStr ''Female'') \<and> map_of rc' ''age'' = Some (JStr ''42'')"
    by (simp add: overwrites_def look facts)
  with rc' id' have w2: "\<exists>rc \<in> set ?out'. map_of rc ''row_id'' = Some (JStr ''A'')
      \<and> map_of rc ''gender'' = Some (JStr ''Female'') \<and> map_of rc ''age'' = Some (JStr ''42'')"
    by blast
  from run mem pay d look(1,4,7) w1 run' w2 show ?thesis
    by (intro conjI)
qed

subsection \<open>The merges\<close>

text \<open>
  C1, as amended. The merge emits exactly one merged record for every correlation id
  that has both a WorkItem and a payload, and no record for an id without a payload;
  it reports no missing ids. When \<open>merge_soap_clean.py\<close> finishes, the request ids it
  loaded are pairwise distinct and are the ids of the request file, the payload ids are
  the ids of the successful responses, the records written correspond one to one, in
  request order, to the requests whose id has a payload, each being the request's
  facts updated with that payload, and the only report is the number of lines written.
  When step 9 of \<open>generate_soap_notes.py\<close> finishes, the records written correspond one
  to one to the successful lines of the SOAP output, each built from the facts, the
  transcription and the payload of the line's id. For WorkItems A, B, C and payloads for
  A and C the output is the two merged records for A and C; B is passed over in silence.
\<close>

theorem merge_emits_paired:
  "(merge_soap_clean input_lines output_lines = Inr (out, n) \<longrightarrow>
      (\<exists>req_facts soap_map.
          load_requests input_lines [] = Inr req_facts
        \<and> load_soap_map output_lines [] = Inr soap_map
        \<and> distinct (map fst req_facts)
        \<and> set (map fst req_facts) = set (map rq_custom_id input_lines)
        \<and> set (map fst soap_map)
            = set (map sp_custom_id (filter (\<lambda>j. sp_status_code j = 200) output_lines))
        \<and> paired req_facts soap_map out
        \<and> n = length out))
    \<and> (merge_master facts_map tx_map lines = Inr out' \<longrightarrow>
          master_paired facts_map tx_map lines out')"
proof -
  have "\<exists>req_facts soap_map.
          load_requests input_lines [] = Inr req_facts
        \<and> load_soap_map output_lines [] = Inr soap_map
        \<and> distinct (map fst req_facts)
        \<and> set (map fst req_facts) = set (map rq_custom_id input_lines)
        \<and> set (map fst soap_map)
            = set (map sp_custom_id (filter (\<lambda>j. sp_status_code j = 200) output_lines))
        \<and> paired req_facts soap_map out
        \<and> n = length out"
    if run: "merge_soap_clean input_lines output_lines = Inr (out, n)"
  proof -
    from run obtain req_facts soap_map where
      l1: "load_requests input_lines [] = Inr req_facts"
      and l2: "load_soap_map output_lines [] = Inr soap_map"
      and l3: "merge_write req_facts soap_map = Inr out" and l4: "n = length out"
      by (auto simp: merge_soap_clean_def split: sum.splits)
    from load_requests_keys [OF l1]
    have "distinct (map fst req_facts)"
      and "set (map fst req_facts) = set (map rq_custom_id input_lines)"
      by simp_all
    moreover from load_soap_map_keys [OF l2]
    have "set (map fst soap_map)
        = set (map sp_custom_id (filter (\<lambda>j. sp_status_code j = 200) output_lines))"
      by simp
    moreover note merge_write_paired [OF l3] l1 l2 l4
    ultimately show ?thesis by blast
  qed
  then show ?thesis
    using merge_master_paired by blast
qed

theorem merge_emits_paired_witness:
  "merge_soap_clean [rq ''A'', rq ''B'', rq ''C''] [soap_ok ''A'', soap_ok ''C'']
      = Inr ([merged_of ''A'', merged_of ''C''], 2)
    \<and> paired [(''A'', base_of ''A''), (''B'', base_of ''B''), (''C'', base_of ''C'')]
        [(''A'', JObj sample_soap), (''C'', JObj sample_soap)] [merged_of ''A'', merged_of ''C'']
    \<and> merge_master [(''A'', facts_of), (''B'', facts_of), (''C'', facts_of)]
        [(''A'', ''ta''), (''B'', ''tb''), (''C'', ''tc'')] [soap_ok ''A'', soap_ok ''C'']
      = Inr [master_of ''A'' ''ta'', master_of ''C'' ''tc'']
    \<and> master_paired [(''A'', facts_of), (''B'', facts_of), (''C'', facts_of)]
        [(''A'', ''ta''), (''B'', ''tb''), (''C'', ''tc'')] [soap_ok ''A'', soap_ok ''C'']
        [master_of ''A'' ''ta'', master_of ''C'' ''tc'']"
proof -
  have lr: "load_requests [rq ''A'', rq ''B'', rq ''C''] []
      = Inr [(''A'', base_of ''A''), (''B'', base_of ''B''), (''C'', base_of ''C'')]"
    by (simp add: rq_def base_of_def py_int_def dec_value_def digit_val_def)
  have ls: "load_soap_map [soap_ok ''A'', soap_ok ''C''] []
      = Inr [(''A'', JObj sample_soap), (''C'', JObj sample_soap)]"
    by (simp add: soap_ok_def)
  have run: "merge_soap_clean [rq ''A'', rq ''B'', rq ''C''] [soap_ok ''A'', soap_ok ''C'']
      = Inr ([merged_of ''A'', merged_of ''C''], 2)"
    unfolding merge_soap_clean_def lr ls
    by (simp add: base_of_def merged_of_def sample_soap_def dict_update_def)
  have mm: "merge_master [(''A'', facts_of), (''B'', facts_of), (''C'', facts_of)]
        [(''A'', ''ta''), (''B'', ''tb''), (''C'', ''tc'')] [soap_ok ''A'', soap_ok ''C'']
      = Inr [master_of ''A'' ''ta'', master_of ''C'' ''tc'']"
    by (simp add: soap_ok_def facts_of_def master_of_def master_record_def sample_soap_def
        dict_update_def)
  from merge_emits_paired [of "[rq ''A'', rq ''B'', rq ''C'']" "[soap_ok ''A'', soap_ok ''C'']"
      "[merged_of ''A'', merged_of ''C'']" 2
      "[(''A'', facts_of), (''B'', facts_of), (''C'', facts_of)]"
      "[(''A'', ''ta''), (''B'', ''tb''), (''C'', ''tc'')]" "[soap_ok ''A'', soap_ok ''C'']"
      "[master_of ''A'' ''ta'', master_of ''C'' ''tc'']"] run mm lr ls
  show ?thesis by auto
qed

theorem merge_reports_no_missing_ids:
  "merge_soap_clean [rq ''A'', rq ''B'', rq ''C''] [soap_ok ''A'', soap_ok ''C'']
      = Inr ([merged_of ''A'', merged_of ''C''], 2)
    \<and> merge_soap_clean [rq ''A'', rq ''C''] [soap_ok ''A'', soap_ok ''C'']
      = Inr ([merged_of ''A'', merged_of ''C''], 2)
    \<and> merge_master [(''A'', facts_of), (''B'', facts_of), (''C'', facts_of)]
        [(''A'', ''ta''), (''B'', ''tb''), (''C'', ''tc'')] [soap_ok ''A'', soap_ok ''C'']
      = Inr [master_of ''A'' ''ta'', master_of ''C'' ''tc'']"
  by (simp add: merge_soap_clean_def rq_def soap_ok_def merged_of_def sample_soap_def
      py_int_def dec_value_def digit_val_def dict_update_def facts_of_def master_of_def
      master_record_def)

subsection \<open>Extraction failures\<close>

text \<open>
  C4, as amended. When \<open>grab_tx\<close> finds no match in the content of a successful
  response record, the loader of \<open>generate_soap_notes.py\<close> fails with a \<open>ValueError\<close>
  whose message names that record's correlation id. The failure is fatal: the loader
  stops at the first such record, whatever the lines after it hold, nothing is
  accumulated, and the stage ends with that error, before the SOAP job is submitted.
\<close>

theorem extraction_failure_is_fatal:
  assumes "list_all (\<lambda>r. tx_status_code r \<noteq> 200 \<or> grab_tx (tx_content r) \<noteq> None) before"
    and "tx_status_code bad = 200" and "grab_tx (tx_content bad) = None"
  shows "load_tx (before @ bad # after) tx_map
        = Inl (ValueError (''Bad JSON in transcription for '' @ tx_custom_id bad))
    \<and> soap_notes_prepare input_lines (before @ bad # after)
        = Inl (ValueError (''Bad JSON in transcription for '' @ tx_custom_id bad))"
  using load_tx_bad [OF assms] by (simp add: soap_notes_prepare_def)

theorem extraction_failure_is_fatal_witness:
  "list_all (\<lambda>r. tx_status_code r \<noteq> 200 \<or> grab_tx (tx_content r) \<noteq> None) [tx_ok ''A'']
    \<and> tx_status_code (tx_noise ''B'') = 200 \<and> grab_tx (tx_content (tx_noise ''B'')) = None
    \<and> load_tx [tx_ok ''A'', tx_noise ''B'', tx_ok ''C''] []
        = Inl (ValueError ''Bad JSON in transcription for B'')
    \<and> soap_notes_prepare [rq ''A'', rq ''B'', rq ''C''] [tx_ok ''A'', tx_noise ''B'', tx_ok ''C'']
        = Inl (ValueError ''Bad JSON in transcription for B'')"
proof -
  have h1: "list_all (\<lambda>r. tx_status_code r \<noteq> 200 \<or> grab_tx (tx_content r) \<noteq> None)
      [tx_ok ''A'']"
    by (simp add: tx_ok_def grab_tx_def tx_open_def dq_def startswith_def py_isspace_def)
  have h2: "tx_status_code (tx_noise ''B'') = 200"
    by (simp add: tx_noise_def)
  have h3: "grab_tx (tx_content (tx_noise ''B'')) = None"
    by (simp add: tx_noise_def grab_tx_def tx_open_def dq_def startswith_def)
  have id: "tx_custom_id (tx_noise ''B'') = ''B''"
    by (simp add: tx_noise_def)
  from extraction_failure_is_fatal [OF h1 h2 h3, of "[tx_ok ''C'']" "[]"
      "[rq ''A'', rq ''B'', rq ''C'']"] h1 h2 h3 id
  show ?thesis by simp
qed

theorem extraction_failure_aborts_batch:
  "soap_notes_prepare [rq ''A'', rq ''B''] [tx_noise ''A'', tx_ok ''B'']
     = Inl (ValueError ''Bad JSON in transcription for A'')
   \<and> soap_notes_prepare [rq ''B''] [tx_ok ''B'']
     = Inr [\<lparr>sr_custom_id = ''B'', sr_facts = facts_of, sr_tx = ''hello''\<rparr>]"
  by (simp add: soap_notes_prepare_def load_facts_def parse_facts_def rq_def tx_noise_def
      tx_ok_def grab_tx_def tx_open_def dq_def startswith_def py_isspace_def missing_def
      facts_of_def)

subsection \<open>Missing ids\<close>

text \<open>
  C6, as amended. Not every stage aborts on a missing id. \<open>generate_soap_notes.py\<close>
  does: when some request id has no successful response in the output of the transcript
  job, the script never reaches the SOAP job and ends with a non-zero exit status,
  either through \<open>sys.exit\<close> with the message that gives the number of missing ids,
  which is at least one, or before that through the \<open>ValueError\<close> of a record whose
  content did not match. \<open>merge_soap_clean.py\<close> passes over the ids without a payload
  and finishes normally.
\<close>

theorem missing_transcriptions_abort:
  assumes "j \<in> set input_lines"
    and "rq_custom_id j
           \<notin> set (map tx_custom_id (filter (\<lambda>r. tx_status_code r = 200) output_lines))"
  shows "(\<exists>cid. soap_notes_prepare input_lines output_lines
              = Inl (ValueError (''Bad JSON in transcription for '' @ cid)))
    \<or> (soap_notes_prepare input_lines output_lines
          = Inl (SystemExit (show_nat (card (unanswered input_lines output_lines))
                   @ '' transcriptions missing, cannot proceed''))
        \<and> 0 < card (unanswered input_lines output_lines))"
proof (cases "load_tx output_lines []")
  case (Inl e)
  from load_tx_error [OF Inl]
  have "\<exists>cid. soap_notes_prepare input_lines output_lines
      = Inl (ValueError (''Bad JSON in transcription for '' @ cid))"
    by (simp add: soap_notes_prepare_def Inl)
  then show ?thesis by (rule disjI1)
next
  case (Inr tx_map)
  from keys_load_tx [OF Inr]
  have keys: "set (map fst tx_map)
      = set (map tx_custom_id (filter (\<lambda>r. tx_status_code r = 200) output_lines))"
    by auto
  have m: "missing (load_facts input_lines) tx_map = unanswered input_lines output_lines"
    unfolding missing_def unanswered_def keys using keys_load_facts [of input_lines] by simp
  from assms have "rq_custom_id j \<in> unanswered input_lines output_lines"
    by (simp add: unanswered_def)
  moreover have "finite (unanswered input_lines output_lines)"
    by (simp add: unanswered_def)
  ultimately have "unanswered input_lines output_lines \<noteq> {}"
    and "0 < card (unanswered input_lines output_lines)"
    by (auto simp: card_gt_0_iff)
  with Inr m show ?thesis by (simp add: soap_notes_prepare_def)
qed

theorem missing_transcriptions_abort_witness:
  "rq ''B'' \<in> set [rq ''A'', rq ''B'', rq ''C'']
    \<and> rq_custom_id (rq ''B'')
         \<notin> set (map tx_custom_id (filter (\<lambda>r. tx_status_code r = 200) [tx_ok ''A'', tx_ok ''C'']))
    \<and> unanswered [rq ''A'', rq ''B'', rq ''C''] [tx_ok ''A'', tx_ok ''C''] = {''B''}
    \<and> soap_notes_prepare [rq ''A'', rq ''B'', rq ''C''] [tx_ok ''A'', tx_ok ''C'']
         = Inl (SystemExit ''1 transcriptions missing, cannot proceed'')"
proof -
  have h1: "rq ''B'' \<in> set [rq ''A'', rq ''B'', rq ''C'']"
    by simp
  have h2: "rq_custom_id (rq ''B'')
      \<notin> set (map tx_custom_id (filter (\<lambda>r. tx_status_code r = 200) [tx_ok ''A'', tx_ok ''C'']))"
    by (simp add: rq_def tx_ok_def)
  have u: "unanswered [rq ''A'', rq ''B'', rq ''C''] [tx_ok ''A'', tx_ok ''C''] = {''B''}"
    by (auto simp: unanswered_def rq_def tx_ok_def)
  have ok: "load_tx [tx_ok ''A'', tx_ok ''C''] [] = Inr [(''A'', ''hello''), (''C'', ''hello'')]"
    by (simp add: tx_ok_def grab_tx_def tx_open_def dq_def startswith_def py_isspace_def)
  have no_value_error:
    "soap_notes_prepare [rq ''A'', rq ''B'', rq ''C''] [tx_ok ''A'', tx_ok ''C'']
       \<noteq> Inl (ValueError (''Bad JSON in transcription for '' @ cid))" for cid
    unfolding soap_notes_prepare_def ok
    by (simp add: load_facts_def missing_def rq_def)
  have one: "show_nat (card {''B''}) = ''1''"
    by (simp add: show_nat.simps digit_char_def)
  from missing_transcriptions_abort [OF h1 h2] no_value_error
  have "soap_notes_prepare [rq ''A'', rq ''B'', rq ''C''] [tx_ok ''A'', tx_ok ''C'']
      = Inl (SystemExit (show_nat (card (unanswered [rq ''A'', rq ''B'', rq ''C'']
               [tx_ok ''A'', tx_ok ''C''])) @ '' transcriptions missing, cannot proceed''))"
    by blast
  with h1 h2 u one show ?thesis by simp
qed

theorem merge_soap_clean_missing_not_fatal:
  "merge_soap_clean [rq ''A'', rq ''B''] [soap_ok ''A''] = Inr ([merged_of ''A''], 1)"
  by (simp add: merge_soap_clean_def rq_def soap_ok_def merged_of_def sample_soap_def
      py_int_def dec_value_def digit_val_def dict_update_def)

subsection \<open>Submission\<close>

text \<open>
  C8, as amended. The scripts validate nothing before they submit and raise no
  \<open>ValidationError\<close>: the request file is uploaded as it was built. Its correlation ids
  are pairwise distinct by construction, for every input: in \<open>generate_soap_notes.py\<close>
  they are the keys of \<open>facts_map\<close> (a request id repeated in the input file is submitted
  once), in \<open>generate_transcriptions_batch.py\<close> they are the row ids, and that file is
  never empty. \<open>generate_soap_notes.py\<close> submits an empty collection when its input is
  empty.
\<close>

theorem submitted_ids_distinct:
  "(soap_notes_prepare input_lines output_lines = Inr reqs \<longrightarrow>
       distinct (map sr_custom_id reqs)
     \<and> set (map sr_custom_id reqs) = set (map rq_custom_id input_lines))
    \<and> distinct (map tq_custom_id (write_batch_input (build_rows rnd n)))
    \<and> write_batch_input (build_rows rnd n) \<noteq> []"
proof -
  have "set (map sr_custom_id reqs) = set (map rq_custom_id input_lines)"
    if run: "soap_notes_prepare input_lines output_lines = Inr reqs"
  proof -
    from run obtain tx_map where
      "build_soap_input (load_facts input_lines) tx_map = Inr reqs"
      by (auto simp: soap_notes_prepare_def Let_def split: sum.splits if_splits)
    then have "map sr_custom_id reqs = map fst (load_facts input_lines)"
      by (rule build_soap_input_ids)
    then have "set (map sr_custom_id reqs) = fst ` set (load_facts input_lines)"
      by simp
    then show ?thesis by (simp add: keys_load_facts)
  qed
  then have soap: "soap_notes_prepare input_lines output_lines = Inr reqs \<longrightarrow>
       distinct (map sr_custom_id reqs)
     \<and> set (map sr_custom_id reqs) = set (map rq_custom_id input_lines)"
    using prepare_distinct [of input_lines output_lines reqs] by blast
  have "map tq_custom_id (write_batch_input (build_rows rnd n))
      = map row_id (build_rows rnd n)"
    by (simp add: write_batch_input_def comp_def)
  then have ids: "distinct (map tq_custom_id (write_batch_input (build_rows rnd n)))"
    using build_rows_distinct [of rnd n] by simp
  have "length (write_batch_input (build_rows rnd n)) = 1032"
    by (simp add: write_batch_input_def build_rows_def TARGET_ROWS_def)
  then have ne: "write_batch_input (build_rows rnd n) \<noteq> []"
    by auto
  from soap ids ne show ?thesis by (intro conjI)
qed

theorem submitted_ids_distinct_witness:
  "soap_notes_prepare [rq ''A'', rq ''B'', rq ''A''] [tx_ok ''A'', tx_ok ''B'']
      = Inr [\<lparr>sr_custom_id = ''A'', sr_facts = facts_of, sr_tx = ''hello''\<rparr>,
             \<lparr>sr_custom_id = ''B'', sr_facts = facts_of, sr_tx = ''hello''\<rparr>]
    \<and> distinct (map sr_custom_id
         [\<lparr>sr_custom_id = ''A'', sr_facts = facts_of, sr_tx = ''hello''\<rparr>,
          \<lparr>sr_custom_id = ''B'', sr_facts = facts_of, sr_tx = ''hello''\<rparr>])"
proof -
  have run: "soap_notes_prepare [rq ''A'', rq ''B'', rq ''A''] [tx_ok ''A'', tx_ok ''B'']
      = Inr [\<lparr>sr_custom_id = ''A'', sr_facts = facts_of, sr_tx = ''hello''\<rparr>,
             \<lparr>sr_custom_id = ''B'', sr_facts = facts_of, sr_tx = ''hello''\<rparr>]"
    by (simp add: soap_notes_prepare_def load_facts_def parse_facts_def rq_def tx_ok_def
        grab_tx_def tx_open_def dq_def startswith_def py_isspace_def missing_def facts_of_def)
  from submitted_ids_distinct [of "[rq ''A'', rq ''B'', rq ''A'']" "[tx_ok ''A'', tx_ok ''B'']"
      "[\<lparr>sr_custom_id = ''A'', sr_facts = facts_of, sr_tx = ''hello''\<rparr>,
        \<lparr>sr_custom_id = ''B'', sr_facts = facts_of, sr_tx = ''hello''\<rparr>]"] run
  show ?thesis by blast
qed

theorem empty_batch_is_submitted:
  "soap_notes_prepare [] [] = Inr []"
  by (simp add: soap_notes_prepare_def load_facts_def missing_def)

subsection \<open>The transcript generator\<close>

text \<open>
  C10. The main loop of \<open>generate_transcriptions.py\<close> keeps the invariant that no two
  records of \<open>rows\<close> agree on the seven fields of the key and that \<open>seen\<close> is the set of
  the keys of \<open>rows\<close>: it holds at the start, every iteration of the loop preserves it,
  and so, whenever the loop ends, the rows written to the final file have pairwise
  distinct keys (and are pairwise distinct), and there are at least \<open>TARGET_ROWS\<close> of
  them.
\<close>

theorem rows_unique:
  "unique_inv init_state
    \<and> (unique_inv st \<and> loop_body cfg gen round st = Inr st' \<longrightarrow> unique_inv st')
    \<and> (main_loop cfg gen fuel 0 init_state = Some (Inr final) \<longrightarrow>
          distinct (map UNIQUE_KEY (rows final))
        \<and> seen final = set (map UNIQUE_KEY (rows final))
        \<and> distinct (rows final)
        \<and> cfg_TARGET_ROWS cfg \<le> length (rows final))"
proof -
  have a: "unique_inv init_state"
    by (rule init_inv)
  have b: "unique_inv st \<and> loop_body cfg gen round st = Inr st' \<longrightarrow> unique_inv st'"
    using loop_body_inv by blast
  have c: "main_loop cfg gen fuel 0 init_state = Some (Inr final) \<longrightarrow>
          distinct (map UNIQUE_KEY (rows final))
        \<and> seen final = set (map UNIQUE_KEY (rows final))
        \<and> distinct (rows final)
        \<and> cfg_TARGET_ROWS cfg \<le> length (rows final)"
  proof
    assume r: "main_loop cfg gen fuel 0 init_state = Some (Inr final)"
    from main_loop_inv [OF init_inv r]
    have i: "unique_inv final" and l: "cfg_TARGET_ROWS cfg \<le> length (rows final)"
      by simp_all
    from i have k: "distinct (map UNIQUE_KEY (rows final))"
      and s: "seen final = set (map UNIQUE_KEY (rows final))"
      by (simp_all add: unique_inv_def)
    from k have "distinct (rows final)"
      by (simp add: distinct_map)
    with k s l show "distinct (map UNIQUE_KEY (rows final))
        \<and> seen final = set (map UNIQUE_KEY (rows final))
        \<and> distinct (rows final)
        \<and> cfg_TARGET_ROWS cfg \<le> length (rows final)"
      by simp
  qed
  from a b c show ?thesis by blast
qed

theorem rows_unique_witness:
  "main_loop small_config sample_gen 5 0 init_state = Some (Inr
      \<lparr>rows = [sample_gen 0 0, sample_gen 0 1, sample_gen 2 0],
       seen = {UNIQUE_KEY (sample_gen 2 0), UNIQUE_KEY (sample_gen 0 1),
               UNIQUE_KEY (sample_gen 0 0)},
       chunk_idx = 1, checkpoints = [(1, [sample_gen 0 0, sample_gen 0 1])]\<rparr>)
    \<and> distinct (map UNIQUE_KEY [sample_gen 0 0, sample_gen 0 1, sample_gen 2 0])
    \<and> UNIQUE_KEY (sample_gen 1 0) = UNIQUE_KEY (sample_gen 0 1)"
proof -
  define st1 where "st1 = \<lparr>rows = [sample_gen 0 0, sample_gen 0 1],
       seen = {UNIQUE_KEY (sample_gen 0 1), UNIQUE_KEY (sample_gen 0 0)},
       chunk_idx = 1, checkpoints = [(1, [sample_gen 0 0, sample_gen 0 1])]\<rparr>"
  define st3 where "st3 = \<lparr>rows = [sample_gen 0 0, sample_gen 0 1, sample_gen 2 0],
       seen = {UNIQUE_KEY (sample_gen 2 0), UNIQUE_KEY (sample_gen 0 1),
               UNIQUE_KEY (sample_gen 0 0)},
       chunk_idx = 1, checkpoints = [(1, [sample_gen 0 0, sample_gen 0 1])]\<rparr>"
  have dup: "UNIQUE_KEY (sample_gen 1 0) = UNIQUE_KEY (sample_gen 0 1)"
    by (simp add: sample_gen_def UNIQUE_KEY_def)
  have n0: "map (sample_gen 0) [0..<min (cfg_BATCH_SIZE small_config)
      (cfg_TARGET_ROWS small_config - length (rows init_state))] = [sample_gen 0 0, sample_gen 0 1]"
    by (simp add: small_config_def init_state_def upt_rec)
  have a0: "accept_batch [sample_gen 0 0, sample_gen 0 1] init_state =
      \<lparr>rows = [sample_gen 0 0, sample_gen 0 1],
       seen = {UNIQUE_KEY (sample_gen 0 1), UNIQUE_KEY (sample_gen 0 0)},
       chunk_idx = 0, checkpoints = []\<rparr>"
    by (simp add: init_state_def sample_gen_def UNIQUE_KEY_def Let_def)
  have b0: "loop_body small_config sample_gen 0 init_state = Inr st1"
    unfolding loop_body_def Let_def n0 a0 by (simp add: checkpoint_def small_config_def st1_def)
  have n1: "map (sample_gen k) [0..<min (cfg_BATCH_SIZE small_config)
      (cfg_TARGET_ROWS small_config - length (rows st1))] = [sample_gen k 0]" for k
    by (simp add: small_config_def st1_def upt_rec)
  have a1: "accept_batch [sample_gen (Suc 0) 0] st1 = st1"
    by (simp add: st1_def sample_gen_def UNIQUE_KEY_def Let_def)
  have b1: "loop_body small_config sample_gen (Suc 0) st1 = Inr st1"
    unfolding loop_body_def Let_def n1 a1 by (simp add: checkpoint_def small_config_def st1_def)
  have a2: "accept_batch [sample_gen (Suc (Suc 0)) 0] st1 = st3"
    by (simp add: st1_def st3_def sample_gen_def UNIQUE_KEY_def Let_def)
  have b2: "loop_body small_config sample_gen (Suc (Suc 0)) st1 = Inr st3"
    unfolding loop_body_def Let_def n1 a2 by (simp add: checkpoint_def small_config_def st3_def)
  have l: "length (rows init_state) < cfg_TARGET_ROWS small_config"
    "length (rows st1) < cfg_TARGET_ROWS small_config"
    "\<not> length (rows st3) < cfg_TARGET_ROWS small_config"
    by (simp_all add: init_state_def st1_def st3_def small_config_def)
  have step: "main_loop small_config sample_gen (Suc f) r st =
      (case loop_body small_config sample_gen r st of
         Inl e \<Rightarrow> Some (Inl e)
       | Inr st' \<Rightarrow> main_loop small_config sample_gen f (Suc r) st')"
    if "length (rows st) < cfg_TARGET_ROWS small_config" for f r st
    by (subst main_loop.simps) (simp add: that)
  have fin: "main_loop small_config sample_gen f r st3 = Some (Inr st3)" for f r
    by (subst main_loop.simps) (simp add: l)
  have five: "5 = Suc (Suc (Suc (Suc (Suc 0))))"
    by simp
  have run: "main_loop small_config sample_gen 5 0 init_state = Some (Inr st3)"
    unfolding five by (simp only: step l b0 b1 b2 fin sum.case)
  from rows_unique [where cfg = small_config and gen = sample_gen and fuel = 5
      and final = st3] run
  have "distinct (map UNIQUE_KEY (rows st3))"
    by simp
  then have "distinct (map UNIQUE_KEY [sample_gen 0 0, sample_gen 0 1, sample_gen 2 0])"
    by (simp add: st3_def)
  with run dup show ?thesis unfolding st3_def by blast
qed

end
